theory Spec2Isabelle
  imports Complex_Main "HOL-Library.Word" "HOL-Library.Code_Target_Numeral"
begin

section \<open>Values of the program\<close>

type_synonym byte = "8 word"

text \<open>
  A Python exception: its class name and its message (\<open>str(e)\<close> of an ordinary exception
  with one argument is that argument). tenacity's \<open>RetryError\<close> is kept apart: it holds
  the last attempt, a \<open>Future\<close> object living at some address, whose exception is the one
  the last attempt raised.
\<close>

datatype exn =
    Exc string string
  | RetryError nat exn

fun class_name :: "exn \<Rightarrow> string" where
  "class_name (Exc c m) = c"
| "class_name (RetryError a e) = ''RetryError''"

definition hex_digit :: "nat \<Rightarrow> char" where
  "hex_digit d = ''0123456789abcdef'' ! (d mod 16)"

fun hex :: "nat \<Rightarrow> string" where
  "hex n = (if n < 16 then [hex_digit n] else hex (n div 16) @ [hex_digit n])"

text \<open>
  \<open>str(e)\<close>. For \<open>RetryError\<close>, tenacity gives \<open>RetryError[<last_attempt>]\<close>, and
  the repr of a finished \<open>Future\<close> that raised is
  \<open><Future at 0xADDR state=finished raised CLASS>\<close>.
\<close>

fun str :: "exn \<Rightarrow> string" where
  "str (Exc c m) = m"
| "str (RetryError a e) =
     ''RetryError[<Future at 0x'' @ hex a @ '' state=finished raised '' @ class_name e @ ''>]''"

datatype json = JString string | JObject "(string \<times> json) list"

text \<open>What a Flask view returns: the JSON body and the HTTP status.\<close>

type_synonym response = "json \<times> nat"

definition jsonify :: "(string \<times> string) list \<Rightarrow> json" where
  "jsonify d = JObject (map (\<lambda>(k, v). (k, JString v)) d)"

text \<open>
  The multipart request after Flask has parsed it: \<open>request.form\<close> holds the plain
  fields, \<open>request.files\<close> the file parts (field name and uploaded bytes), in order.
\<close>

record request =
  form :: "(string \<times> string) list"
  files :: "(string \<times> byte list) list"

text \<open>A chat message is a role and a content.\<close>

type_synonym message = "string \<times> string"

text \<open>The calls made on the OpenAI client, with their arguments.\<close>

datatype call =
    Transcriptions_create string "byte list"
  | Chat_completions_create string "message list"
  | Speech_create string string string

datatype service = Whisper | Chat | Speech

fun service_of :: "call \<Rightarrow> service" where
  "service_of (Transcriptions_create m f) = Whisper"
| "service_of (Chat_completions_create m ms) = Chat"
| "service_of (Speech_create m v i) = Speech"

section \<open>The world the handler runs in\<close>

text \<open>
  Everything outside the program is a field of the world: the filesystem, the random
  names \<open>tempfile\<close> draws, the random numbers of \<open>random.random()\<close> (53-bit integers),
  the address the allocator gives the \<open>Future\<close> of a failed attempt, which tenacity is
  installed, and the three external services. The repository pins no version of tenacity,
  and the releases differ in one line the handler depends on: \<open>wait_random_exponential\<close>
  returns \<open>random.uniform(0, high)\<close> up to release 8.2.3 and
  \<open>random.uniform(self.min, high)\<close> in later ones; \<open>draws_from_min\<close> says which. A service answers its \<open>k\<close>-th call (counted from 0) on a given
  request either by raising or by returning: the transcription's \<open>text\<close>, the contents of
  the returned completion choices in order, the synthesized audio bytes.
  \<open>calls\<close> records every call made on the client, oldest first, and \<open>sleeps\<close> every
  wait of the retry wrapper.
\<close>

record world =
  fs :: "string \<rightharpoonup> byte list"
  tmp_names :: "nat \<Rightarrow> string"
  tmp_pos :: nat
  rng :: "nat \<Rightarrow> nat"
  rng_pos :: nat
  draws_from_min :: bool
  future_addr :: nat
  whisper :: "nat \<Rightarrow> string \<Rightarrow> byte list \<Rightarrow> exn + string"
  chat :: "nat \<Rightarrow> string \<Rightarrow> message list \<Rightarrow> exn + string list"
  speech :: "nat \<Rightarrow> string \<Rightarrow> string \<Rightarrow> string \<Rightarrow> exn + byte list"
  calls :: "call list"
  sleeps :: "rat list"

text \<open>A computation that reads and changes the world and either raises or returns.\<close>

type_synonym 'a io = "world \<Rightarrow> (exn + 'a) \<times> world"

definition return :: "'a \<Rightarrow> 'a io" where
  "return x w = (Inr x, w)"

definition raise :: "exn \<Rightarrow> 'a io" where
  "raise e w = (Inl e, w)"

definition bind :: "'a io \<Rightarrow> ('a \<Rightarrow> 'b io) \<Rightarrow> 'b io" where
  "bind m f w = (case m w of (Inl e, w') \<Rightarrow> (Inl e, w') | (Inr x, w') \<Rightarrow> f x w')"

definition calls_to :: "service \<Rightarrow> world \<Rightarrow> nat" where
  "calls_to s w = length (filter (\<lambda>c. service_of c = s) (calls w))"

subsection \<open>The OpenAI client\<close>

definition transcriptions_create :: "string \<Rightarrow> byte list \<Rightarrow> string io" where
  "transcriptions_create model file w =
     (whisper w (calls_to Whisper w) model file,
      w\<lparr>calls := calls w @ [Transcriptions_create model file]\<rparr>)"

definition chat_completions_create :: "string \<Rightarrow> message list \<Rightarrow> string list io" where
  "chat_completions_create model messages w =
     (chat w (calls_to Chat w) model messages,
      w\<lparr>calls := calls w @ [Chat_completions_create model messages]\<rparr>)"

definition speech_create :: "string \<Rightarrow> string \<Rightarrow> string \<Rightarrow> byte list io" where
  "speech_create model voice input w =
     (speech w (calls_to Speech w) model voice input,
      w\<lparr>calls := calls w @ [Speech_create model voice input]\<rparr>)"

subsection \<open>Files\<close>

definition open_rb :: "string \<Rightarrow> byte list io" where
  "open_rb path w =
     (case fs w path of
        None \<Rightarrow> (Inl (Exc ''FileNotFoundError''
                   (''[Errno 2] No such file or directory: '' @ [CHR 0x27] @ path @ [CHR 0x27])), w)
      | Some content \<Rightarrow> (Inr content, w))"

definition write_file :: "string \<Rightarrow> byte list \<Rightarrow> unit io" where
  "write_file path content w = (Inr (), w\<lparr>fs := (fs w)(path \<mapsto> content)\<rparr>)"

definition os_remove :: "string \<Rightarrow> unit io" where
  "os_remove path w =
     (case fs w path of
        None \<Rightarrow> (Inl (Exc ''FileNotFoundError''
                   (''[Errno 2] No such file or directory: '' @ [CHR 0x27] @ path @ [CHR 0x27])), w)
      | Some content \<Rightarrow> (Inr (), w\<lparr>fs := (fs w)(path := None)\<rparr>))"

definition TMP_MAX :: nat where
  "TMP_MAX = 10000"

definition tempdir :: string where
  "tempdir = ''/tmp''"

text \<open>
  \<open>tempfile._mkstemp_inner\<close>: draw candidate names until one does not exist yet, at
  most \<open>TMP_MAX\<close> times; the file is created empty.
\<close>

fun mkstemp_inner :: "nat \<Rightarrow> string \<Rightarrow> string io" where
  "mkstemp_inner 0 suffix w =
     (Inl (Exc ''FileExistsError'' ''[Errno 17] No usable temporary file name found''), w)"
| "mkstemp_inner (Suc n) suffix w =
     (let name = tmp_names w (tmp_pos w);
          file = tempdir @ ''/tmp'' @ name @ suffix;
          w1 = w\<lparr>tmp_pos := tmp_pos w + 1\<rparr>
      in if fs w file \<noteq> None then mkstemp_inner n suffix w1
         else (Inr file, w1\<lparr>fs := (fs w1)(file \<mapsto> [])\<rparr>))"

text \<open>\<open>tempfile.NamedTemporaryFile(suffix=..., delete=False)\<close>; the result is its \<open>name\<close>.\<close>

definition NamedTemporaryFile :: "string \<Rightarrow> string io" where
  "NamedTemporaryFile suffix = mkstemp_inner TMP_MAX suffix"

subsection \<open>base64\<close>

definition b64_alphabet :: string where
  "b64_alphabet = ''ABCDEFGHIJKLMNOPQRSTUVWXYZabcdefghijklmnopqrstuvwxyz0123456789+/''"

definition b64_char :: "nat \<Rightarrow> char" where
  "b64_char i = b64_alphabet ! (i mod 64)"

text \<open>\<open>base64.b64encode(data).decode('utf-8')\<close>: three bytes become four characters.\<close>

fun b64encode :: "byte list \<Rightarrow> string" where
  "b64encode [] = []"
| "b64encode [a] =
     (let n = unat a * 65536
      in [b64_char (n div 262144), b64_char (n div 4096), CHR ''='', CHR ''=''])"
| "b64encode [a, b] =
     (let n = unat a * 65536 + unat b * 256
      in [b64_char (n div 262144), b64_char (n div 4096), b64_char (n div 64), CHR ''=''])"
| "b64encode (a # b # c # rest) =
     (let n = unat a * 65536 + unat b * 256 + unat c
      in [b64_char (n div 262144), b64_char (n div 4096), b64_char (n div 64), b64_char n]
         @ b64encode rest)"

fun index_of :: "'a list \<Rightarrow> 'a \<Rightarrow> nat option" where
  "index_of [] x = None"
| "index_of (y # ys) x = (if x = y then Some 0 else map_option Suc (index_of ys x))"

definition b64_value :: "char \<Rightarrow> nat option" where
  "b64_value c = index_of b64_alphabet c"

text \<open>
  Strict decoding (RFC 4648): groups of four characters of the alphabet, padding only in
  the last group; \<open>None\<close> where the text is not valid base64.
\<close>

fun b64decode :: "string \<Rightarrow> byte list option" where
  "b64decode [] = Some []"
| "b64decode (c1 # c2 # c3 # c4 # rest) =
     (if rest = [] \<and> c4 = CHR ''='' then
        (if c3 = CHR ''='' then
           (case (b64_value c1, b64_value c2) of
              (Some v1, Some v2) \<Rightarrow>
                Some [word_of_nat ((v1 * 262144 + v2 * 4096) div 65536)]
            | _ \<Rightarrow> None)
         else
           (case (b64_value c1, b64_value c2, b64_value c3) of
              (Some v1, Some v2, Some v3) \<Rightarrow>
                (let n = v1 * 262144 + v2 * 4096 + v3 * 64
                 in Some [word_of_nat (n div 65536), word_of_nat (n div 256)])
            | _ \<Rightarrow> None))
      else
        (case (b64_value c1, b64_value c2, b64_value c3, b64_value c4) of
           (Some v1, Some v2, Some v3, Some v4) \<Rightarrow>
             (let n = v1 * 262144 + v2 * 4096 + v3 * 64 + v4
              in map_option
                   (\<lambda>bs. [word_of_nat (n div 65536), word_of_nat (n div 256), word_of_nat n] @ bs)
                   (b64decode rest))
         | _ \<Rightarrow> None))"
| "b64decode cs = None"

section \<open>The retry wrapper\<close>

text \<open>
  tenacity's \<open>Retrying\<close> object as the decorator \<open>retry(wait=..., stop=...)\<close> builds
  it: the parameters of \<open>wait_random_exponential\<close>, the attempt cap of
  \<open>stop_after_attempt\<close>, and \<open>reraise\<close>. The retry condition is tenacity's default,
  which retries on every exception.
\<close>

record retrying =
  wait_min :: rat
  wait_max :: rat
  wait_multiplier :: rat
  wait_exp_base :: rat
  stop_max_attempt_number :: nat
  reraise :: bool

text \<open>\<open>random.random()\<close>: a 53-bit integer scaled into the interval from 0 to 1.\<close>

definition random :: "world \<Rightarrow> rat \<times> world" where
  "random w = (of_nat (rng w (rng_pos w) mod 2 ^ 53) / 2 ^ 53, w\<lparr>rng_pos := rng_pos w + 1\<rparr>)"

definition uniform :: "rat \<Rightarrow> rat \<Rightarrow> world \<Rightarrow> rat \<times> world" where
  "uniform a b w = (case random w of (u, w') \<Rightarrow> (a + (b - a) * u, w'))"

definition wait_exponential :: "retrying \<Rightarrow> nat \<Rightarrow> rat" where
  "wait_exponential r attempt_number =
     (let exp = wait_exp_base r ^ (attempt_number - 1);
          result = wait_multiplier r * exp
      in max (max 0 (wait_min r)) (min result (wait_max r)))"

text \<open>
  \<open>wait_random_exponential.__call__\<close>: \<open>high\<close> is what \<open>wait_exponential\<close> gives, and the
  wait is drawn between 0 and \<open>high\<close> (tenacity 8.2.3), or between \<open>min\<close> and \<open>high\<close>
  (later releases).
\<close>

definition wait_random_exponential :: "retrying \<Rightarrow> nat \<Rightarrow> world \<Rightarrow> rat \<times> world" where
  "wait_random_exponential r attempt_number w =
     (let high = wait_exponential r attempt_number
      in uniform (if draws_from_min w then wait_min r else 0) high w)"

definition sleep :: "rat \<Rightarrow> world \<Rightarrow> world" where
  "sleep seconds w = w\<lparr>sleeps := sleeps w @ [seconds]\<rparr>"

text \<open>
  \<open>Retrying.__call__\<close>: run the attempt; a result is returned; an exception either ends
  the loop, when \<open>stop_after_attempt\<close> says so (\<open>attempt_number >= max_attempt_number\<close>),
  or is followed by a sleep and the next attempt. At the end the exception of the last
  attempt is raised as it is only under \<open>reraise\<close>; otherwise \<open>RetryError\<close> is raised
  with the last attempt inside.
\<close>

function retrying_call :: "retrying \<Rightarrow> 'a io \<Rightarrow> nat \<Rightarrow> 'a io" where
  "retrying_call r fn attempt_number w =
     (case fn w of
        (Inr result, w1) \<Rightarrow> (Inr result, w1)
      | (Inl e, w1) \<Rightarrow>
          if stop_max_attempt_number r \<le> attempt_number then
            (if reraise r then (Inl e, w1) else (Inl (RetryError (future_addr w1) e), w1))
          else
            (case wait_random_exponential r attempt_number w1 of
               (seconds, w2) \<Rightarrow> retrying_call r fn (attempt_number + 1) (sleep seconds w2)))"
  by pat_completeness auto
termination
  by (relation "measure (\<lambda>(r, fn, n, w). stop_max_attempt_number r - n)") auto

definition retry :: "retrying \<Rightarrow> 'a io \<Rightarrow> 'a io" where
  "retry r fn = retrying_call r fn 1"

text \<open>
  The decorator written on each of the three stage functions:
  \<open>@retry(wait=wait_random_exponential(min=1, max=60), stop=stop_after_attempt(6))\<close>.
  \<open>multiplier\<close>, \<open>exp_base\<close> and \<open>reraise\<close> are not given and take tenacity's defaults.
\<close>

definition stage_retry :: retrying where
  "stage_retry = \<lparr>wait_min = 1, wait_max = 60, wait_multiplier = 1, wait_exp_base = 2,
                   stop_max_attempt_number = 6, reraise = False\<rparr>"

section \<open>The three stages\<close>

definition transcribe_audio_attempt :: "string \<Rightarrow> string io" where
  "transcribe_audio_attempt file_path =
     bind (open_rb file_path) (\<lambda>f. transcriptions_create ''whisper-1'' f)"

definition transcribe_audio :: "string \<Rightarrow> string io" where
  "transcribe_audio file_path = retry stage_retry (transcribe_audio_attempt file_path)"

definition system_instruction :: string where
  "system_instruction = ''You are a helpful voice assistant.''"

definition chat_messages :: "string \<Rightarrow> message list" where
  "chat_messages user_input = [(''system'', system_instruction), (''user'', user_input)]"

definition generate_chat_response :: "string \<Rightarrow> string list io" where
  "generate_chat_response user_input =
     retry stage_retry (chat_completions_create ''gpt-3.5-turbo'' (chat_messages user_input))"

definition generate_speech :: "string \<Rightarrow> byte list io" where
  "generate_speech text = retry stage_retry (speech_create ''tts-1'' ''alloy'' text)"

section \<open>The handler of POST /voice-agent\<close>

text \<open>\<open>chat_response.choices[0].message.content\<close>; indexing an empty list raises.\<close>

definition first_choice :: "string list \<Rightarrow> string io" where
  "first_choice choices =
     (case choices of
        [] \<Rightarrow> raise (Exc ''IndexError'' ''list index out of range'')
      | content # _ \<Rightarrow> return content)"

text \<open>
  The body of the \<open>try\<close> block. \<open>'audio' not in request.files\<close> and
  \<open>request.files['audio']\<close> are one lookup here: the first file part of that name.
\<close>

definition voice_agent_try :: "request \<Rightarrow> response io" where
  "voice_agent_try req =
     (case map_of (files req) ''audio'' of
        None \<Rightarrow> return (jsonify [(''error'', ''No audio file provided'')], 400)
      | Some audio_file \<Rightarrow>
          bind (NamedTemporaryFile ''.wav'') (\<lambda>temp_audio_path.
          bind (write_file temp_audio_path audio_file) (\<lambda>_.
          bind (transcribe_audio temp_audio_path) (\<lambda>user_input.
          bind (generate_chat_response user_input) (\<lambda>chat_response.
          bind (first_choice chat_response) (\<lambda>text_response.
          bind (NamedTemporaryFile ''.mp3'') (\<lambda>temp_speech_path.
          bind (generate_speech text_response) (\<lambda>speech_response.
          bind (write_file temp_speech_path speech_response) (\<lambda>_.
          bind (open_rb temp_speech_path) (\<lambda>audio_data.
          bind (os_remove temp_audio_path) (\<lambda>_.
          bind (os_remove temp_speech_path) (\<lambda>_.
          return (jsonify [(''text_response'', text_response),
                           (''audio_base64'', b64encode audio_data)], 200)))))))))))))"

text \<open>The handler: \<open>except Exception as e\<close> turns whatever was raised into a 500.\<close>

definition voice_agent :: "request \<Rightarrow> world \<Rightarrow> response \<times> world" where
  "voice_agent req w =
     (case voice_agent_try req w of
        (Inr resp, w') \<Rightarrow> (resp, w')
      | (Inl e, w') \<Rightarrow> ((jsonify [(''error'', str e)], 500), w'))"

section \<open>Notions the statements use\<close>

text \<open>
  The part of the world the retry loop leaves alone: everything but the record of calls,
  the record of sleeps and the position in the random stream.
\<close>

definition static :: "world \<Rightarrow> world" where
  "static w = w\<lparr>calls := [], sleeps := [], rng_pos := 0\<rparr>"

text \<open>The wait after failed attempt number \<open>a\<close>, drawn at position \<open>p\<close> of the random stream.\<close>

definition wait_value :: "world \<Rightarrow> nat \<Rightarrow> nat \<Rightarrow> rat" where
  "wait_value w a p =
     (if draws_from_min w then wait_min stage_retry else 0)
       + (wait_exponential stage_retry a - (if draws_from_min w then wait_min stage_retry else 0))
         * (of_nat (rng w p mod 2 ^ 53) / 2 ^ 53)"

text \<open>
  The world after \<open>Suc k\<close> attempts, the first of them numbered \<open>a\<close>, each making the
  call \<open>c\<close>, with a sleep between two attempts.
\<close>

definition after_attempts :: "world \<Rightarrow> call \<Rightarrow> nat \<Rightarrow> nat \<Rightarrow> world" where
  "after_attempts w c a k =
     w\<lparr>calls := calls w @ replicate (Suc k) c,
       sleeps := sleeps w @ map (\<lambda>i. wait_value w (a + i) (rng_pos w + i)) [0..<k],
       rng_pos := rng_pos w + k\<rparr>"

text \<open>
  What answers the attempts of a stage: \<open>fn\<close> is an attempt that makes the one call
  \<open>c\<close> on service \<open>s\<close> and raises or returns what the service answers, in every
  world that differs from \<open>w0\<close> only in what the retry loop changes.
\<close>

definition attempt_of :: "world \<Rightarrow> 'a io \<Rightarrow> service \<Rightarrow> call \<Rightarrow> (nat \<Rightarrow> exn + 'a) \<Rightarrow> bool" where
  "attempt_of w0 fn s c out \<longleftrightarrow>
     service_of c = s \<and>
     (\<forall>w. static w = static w0 \<longrightarrow>
        fn w = (out (calls_to s w), w\<lparr>calls := calls w @ [c]\<rparr>))"

text \<open>An error response: a JSON object with the one field \<open>error\<close>, under status 400 or 500.\<close>

definition is_error_response :: "response \<Rightarrow> bool" where
  "is_error_response r \<longleftrightarrow>
     (case r of
        (JObject [(k, JString s)], status) \<Rightarrow> k = ''error'' \<and> (status = 400 \<or> status = 500)
      | _ \<Rightarrow> False)"

text \<open>
  What one run of the handler did, read off its result: \<open>k1\<close> transcription calls on the
  uploaded bytes, then \<open>k2\<close> completion calls on the transcript \<open>u\<close>, then \<open>k3\<close>
  synthesis calls on the reply \<open>t\<close>, each stage entered only after the one before it
  returned, and the response either the success payload, built from \<open>t\<close> and the
  synthesized bytes, or an error response. Transcription is called once the upload is
  staged, and status 400 is kept for the missing upload.
\<close>

definition run_summary ::
  "request \<Rightarrow> world \<Rightarrow> nat \<Rightarrow> nat \<Rightarrow> nat \<Rightarrow> byte list \<Rightarrow> string \<Rightarrow> string \<Rightarrow> string list
     \<Rightarrow> byte list \<Rightarrow> bool" where
  "run_summary req w k1 k2 k3 audio u t rest synth \<longleftrightarrow>
     k1 \<le> 6 \<and> k2 \<le> 6 \<and> k3 \<le> 6 \<and> (k1 = 0 \<longrightarrow> k2 = 0) \<and> (k2 = 0 \<longrightarrow> k3 = 0)
     \<and> calls (snd (voice_agent req w)) =
         calls w @ replicate k1 (Transcriptions_create ''whisper-1'' audio)
           @ replicate k2 (Chat_completions_create ''gpt-3.5-turbo'' (chat_messages u))
           @ replicate k3 (Speech_create ''tts-1'' ''alloy'' t)
     \<and> (0 < k1 \<longrightarrow> map_of (files req) ''audio'' = Some audio)
     \<and> (map_of (files req) ''audio'' \<noteq> None \<longrightarrow>
           \<not> isl (fst (NamedTemporaryFile ''.wav'' w)) \<longrightarrow> 0 < k1)
     \<and> (snd (fst (voice_agent req w)) = 400 \<longleftrightarrow> map_of (files req) ''audio'' = None)
     \<and> (0 < k2 \<longrightarrow> whisper w (calls_to Whisper w + k1 - 1) ''whisper-1'' audio = Inr u)
     \<and> (0 < k3 \<longrightarrow>
           chat w (calls_to Chat w + k2 - 1) ''gpt-3.5-turbo'' (chat_messages u) = Inr (t # rest))
     \<and> (if snd (fst (voice_agent req w)) = 200
         then 0 < k3
           \<and> speech w (calls_to Speech w + k3 - 1) ''tts-1'' ''alloy'' t = Inr synth
           \<and> fst (voice_agent req w) =
               (jsonify [(''text_response'', t), (''audio_base64'', b64encode synth)], 200)
         else is_error_response (fst (voice_agent req w)))"

text \<open>The world once \<open>audio_file.save\<close> has written the upload to the temporary file.\<close>

definition staged :: "string \<Rightarrow> byte list \<Rightarrow> world \<Rightarrow> world" where
  "staged p audio w = w\<lparr>fs := (fs w)(p \<mapsto> audio)\<rparr>"




text \<open>The order of the stages, and a list of calls that respects it.\<close>

fun stage_rank :: "service \<Rightarrow> nat" where
  "stage_rank Whisper = 0"
| "stage_rank Chat = 1"
| "stage_rank Speech = 2"

definition in_stage_order :: "call list \<Rightarrow> bool" where
  "in_stage_order cs \<longleftrightarrow> sorted (map (\<lambda>c. stage_rank (service_of c)) cs)"





text \<open>
  A world and a request to run the handler on: an empty filesystem, tenacity 8.2.3, every
  random draw one half, services that answer at once, and an upload of four bytes.
\<close>

definition example_world :: world where
  "example_world =
     \<lparr>fs = Map.empty, tmp_names = (\<lambda>n. replicate (Suc n) CHR ''a''), tmp_pos = 0,
      rng = (\<lambda>n. 2 ^ 52), rng_pos = 0, draws_from_min = False, future_addr = 255,
      whisper = (\<lambda>k m f. Inr ''hello''),
      chat = (\<lambda>k m ms. Inr [''Hi'']),
      speech = (\<lambda>k m v t. Inr [1, 2, 3]),
      calls = [], sleeps = []\<rparr>"

definition example_request :: request where
  "example_request = \<lparr>form = [], files = [(''audio'', [82, 73, 70, 70])]\<rparr>"

text \<open>The same world with one service, or all of them, raising on every call.\<close>

definition whisper_down :: world where
  "whisper_down =
     example_world\<lparr>whisper := (\<lambda>k m f. Inl (Exc ''APIConnectionError'' ''Connection error.''))\<rparr>"

definition chat_down :: world where
  "chat_down =
     example_world\<lparr>chat := (\<lambda>k m ms. Inl (Exc ''RateLimitError'' ''Rate limit reached''))\<rparr>"

definition speech_down :: world where
  "speech_down =
     example_world\<lparr>speech := (\<lambda>k m v t. Inl (Exc ''APITimeoutError'' ''Request timed out.''))\<rparr>"

definition outage_world :: world where
  "outage_world =
     example_world\<lparr>fs := [''/srv/in.wav'' \<mapsto> [1, 2]],
       whisper := (\<lambda>k m f. Inl (Exc ''APIConnectionError'' ''Connection error.'')),
       chat := (\<lambda>k m ms. Inl (Exc ''RateLimitError'' ''Rate limit reached'')),
       speech := (\<lambda>k m v t. Inl (Exc ''APITimeoutError'' ''Request timed out.''))\<rparr>"

text \<open>Every service raises on its first five calls and answers its sixth.\<close>

definition flaky_world :: world where
  "flaky_world =
     example_world\<lparr>
       whisper := (\<lambda>k m f. if k < 5 then Inl (Exc ''APIConnectionError'' ''Connection error.'')
                            else Inr ''hello''),
       chat := (\<lambda>k m ms. if k < 5 then Inl (Exc ''RateLimitError'' ''Rate limit reached'')
                          else Inr [''Hi'', ''Hello there'']),
       speech := (\<lambda>k m v t. if k < 5 then Inl (Exc ''APITimeoutError'' ''Request timed out.'')
                             else Inr [1, 2, 3])\<rparr>"

text \<open>The completion service returns an empty reply and the synthesis service no bytes.\<close>

definition silent_world :: world where
  "silent_world =
     example_world\<lparr>chat := (\<lambda>k m ms. Inr [[]]), speech := (\<lambda>k m v t. Inr [])\<rparr>"

declare retrying_call.simps [simp del]
declare hex.simps [simp del]

section \<open>The retry loop\<close>






lemma wait_random_exponential_value:
  "wait_random_exponential stage_retry a w = (wait_value w a (rng_pos w), w\<lparr>rng_pos := rng_pos w + 1\<rparr>)"
  by (simp add: wait_random_exponential_def uniform_def random_def wait_value_def Let_def)

lemma static_fields:
  "static w = static w0 \<Longrightarrow> fs w = fs w0 \<and> whisper w = whisper w0 \<and> chat w = chat w0 \<and> speech w = speech w0
     \<and> future_addr w = future_addr w0 \<and> rng w = rng w0 \<and> tmp_names w = tmp_names w0 \<and> tmp_pos w = tmp_pos w0
     \<and> draws_from_min w = draws_from_min w0"
  unfolding static_def by (cases w, cases w0) simp

lemma calls_to_append: "calls_to s (w\<lparr>calls := calls w @ [c]\<rparr>) = calls_to s w + (if service_of c = s then 1 else 0)"
  by (simp add: calls_to_def)

lemma map_upt_shift: "map f [0..<Suc k] = f 0 # map (\<lambda>i. f (Suc i)) [0..<k]"
proof -
  have "[0..<Suc k] = 0 # map Suc [0..<k]"
    by (simp only: upt_conv_Cons [OF zero_less_Suc] map_Suc_upt)
  then show ?thesis by (simp add: comp_def del: upt_Suc)
qed

lemma wait_value_rng:
  "rng w' = rng w \<Longrightarrow> draws_from_min w' = draws_from_min w \<Longrightarrow>
   wait_value w' a p = wait_value w a p"
  by (simp add: wait_value_def)

lemma retrying_call_cases:
  fixes fn :: "'a io" and out :: "nat \<Rightarrow> exn + 'a"
  assumes fn: "\<And>w. static w = static w0 \<Longrightarrow> fn w = (out (calls_to s w), w\<lparr>calls := calls w @ [c]\<rparr>)"
    and c: "service_of c = s"
  shows "static w = static w0 \<Longrightarrow> a + d = 6 \<Longrightarrow>
    \<exists>k\<le>d. (\<forall>i<k. isl (out (calls_to s w + i)))
       \<and> snd (retrying_call stage_retry fn a w) = after_attempts w c a k
       \<and> (case out (calls_to s w + k) of
             Inr x \<Rightarrow> fst (retrying_call stage_retry fn a w) = Inr x
           | Inl e \<Rightarrow> k = d \<and> fst (retrying_call stage_retry fn a w) = Inl (RetryError (future_addr w) e))"
proof (induction d arbitrary: a w)
  case 0
  then have a: "a = 6" by simp
  have run: "retrying_call stage_retry fn a w =
      (case out (calls_to s w) of Inr x \<Rightarrow> (Inr x, w\<lparr>calls := calls w @ [c]\<rparr>)
         | Inl e \<Rightarrow> (Inl (RetryError (future_addr w) e), w\<lparr>calls := calls w @ [c]\<rparr>))"
    by (subst retrying_call.simps)
       (simp add: fn [OF "0.prems"(1)] a stage_retry_def split: sum.splits)
  show ?case
    by (rule exI [of _ 0]) (simp add: run after_attempts_def split: sum.splits)
next
  case (Suc d)
  let ?n = "calls_to s w"
  show ?case
  proof (cases "out ?n")
    case (Inr x)
    have run: "retrying_call stage_retry fn a w = (Inr x, w\<lparr>calls := calls w @ [c]\<rparr>)"
      by (subst retrying_call.simps) (simp add: fn [OF Suc.prems(1)] Inr)
    show ?thesis
      by (rule exI [of _ 0]) (simp add: run Inr after_attempts_def)
  next
    case (Inl e)
    let ?w1 = "w\<lparr>calls := calls w @ [c]\<rparr>"
    let ?w2 = "sleep (wait_value w a (rng_pos w)) (?w1\<lparr>rng_pos := rng_pos w + 1\<rparr>)"
    have st: "static ?w2 = static w0" using Suc.prems(1) by (simp add: static_def sleep_def)
    have a: "a + 1 + d = 6" "\<not> 6 \<le> a" using Suc.prems(2) by auto
    have step: "retrying_call stage_retry fn a w = retrying_call stage_retry fn (a + 1) ?w2"
      apply (subst retrying_call.simps)
      apply (simp add: fn [OF Suc.prems(1)] Inl a wait_random_exponential_value)
      apply (simp add: stage_retry_def a wait_value_def)
      done
    have n2: "calls_to s ?w2 = Suc ?n" by (simp add: sleep_def calls_to_def c)
    from Suc.IH [OF st a(1)] obtain k where k: "k \<le> d"
      "\<forall>i<k. isl (out (calls_to s ?w2 + i))"
      "snd (retrying_call stage_retry fn (a + 1) ?w2) = after_attempts ?w2 c (a + 1) k"
      "(case out (calls_to s ?w2 + k) of
             Inr x \<Rightarrow> fst (retrying_call stage_retry fn (a + 1) ?w2) = Inr x
           | Inl e \<Rightarrow> k = d \<and> fst (retrying_call stage_retry fn (a + 1) ?w2) = Inl (RetryError (future_addr ?w2) e))"
      by blast
    have wv: "\<And>b p. wait_value ?w2 b p = wait_value w b p"
      by (rule wait_value_rng) (simp_all add: sleep_def)
    have aa: "after_attempts ?w2 c (a + 1) k = after_attempts w c a (Suc k)"
      unfolding after_attempts_def wv map_upt_shift
      by (simp add: sleep_def replicate_append_same)
    have fa: "future_addr ?w2 = future_addr w" by (simp add: sleep_def)
    have all: "\<forall>i<Suc k. isl (out (?n + i))"
    proof (intro allI impI)
      fix i assume "i < Suc k"
      show "isl (out (?n + i))"
      proof (cases i)
        case 0
        then show ?thesis using Inl by simp
      next
        case (Suc j)
        then show ?thesis using k(2) \<open>i < Suc k\<close> n2 by simp
      qed
    qed
    have w': "snd (retrying_call stage_retry fn a w) = after_attempts w c a (Suc k)"
      using k(3) by (simp only: step aa)
    have res: "(case out (?n + Suc k) of
             Inr x \<Rightarrow> fst (retrying_call stage_retry fn a w) = Inr x
           | Inl e \<Rightarrow> Suc k = Suc d
               \<and> fst (retrying_call stage_retry fn a w) = Inl (RetryError (future_addr w) e))"
      using k(4) unfolding step n2 fa by (simp split: sum.splits)
    show ?thesis
      using k(1) all w' res by (intro exI [of _ "Suc k"] conjI) simp_all
  qed
qed

lemma retry_cases:
  assumes "attempt_of w fn s c out"
  shows "\<exists>k\<le>5. (\<forall>i<k. isl (out (calls_to s w + i)))
       \<and> snd (retry stage_retry fn w) = after_attempts w c 1 k
       \<and> (case out (calls_to s w + k) of
             Inr x \<Rightarrow> fst (retry stage_retry fn w) = Inr x
           | Inl e \<Rightarrow> k = 5 \<and> fst (retry stage_retry fn w) = Inl (RetryError (future_addr w) e))"
proof -
  from assms have fn: "\<And>w'. static w' = static w \<Longrightarrow>
      fn w' = (out (calls_to s w'), w'\<lparr>calls := calls w' @ [c]\<rparr>)"
    and c: "service_of c = s"
    by (simp_all add: attempt_of_def)
  show ?thesis
    unfolding retry_def
    by (rule retrying_call_cases [where ?w0.0 = w, OF fn c]) simp_all
qed



lemma retry_Inl:
  assumes att: "attempt_of w fn s c out"
    and res: "fst (retry stage_retry fn w) = Inl e"
  shows "(\<forall>i<6. isl (out (calls_to s w + i)))
       \<and> (\<exists>e'. out (calls_to s w + 5) = Inl e' \<and> e = RetryError (future_addr w) e')
       \<and> snd (retry stage_retry fn w) = after_attempts w c 1 5"
proof -
  from retry_cases [OF att] obtain j where j: "j \<le> 5"
    "\<forall>i<j. isl (out (calls_to s w + i))"
    "snd (retry stage_retry fn w) = after_attempts w c 1 j"
    "(case out (calls_to s w + j) of
             Inr x \<Rightarrow> fst (retry stage_retry fn w) = Inr x
           | Inl e \<Rightarrow> j = 5 \<and> fst (retry stage_retry fn w) = Inl (RetryError (future_addr w) e))"
    by blast
  from j(4) res obtain e' where e': "out (calls_to s w + j) = Inl e'" "j = 5"
    "e = RetryError (future_addr w) e'"
    by (cases "out (calls_to s w + j)") auto
  have "\<forall>i<6. isl (out (calls_to s w + i))"
  proof (intro allI impI)
    fix i :: nat assume "i < 6"
    then have "i < 5 \<or> i = 5" by auto
    then show "isl (out (calls_to s w + i))" using j(2) e' by auto
  qed
  with e' j(3) show ?thesis by auto
qed

lemma retry_Inr:
  assumes att: "attempt_of w fn s c out"
    and res: "fst (retry stage_retry fn w) = Inr x"
  shows "\<exists>k\<le>5. (\<forall>i<k. isl (out (calls_to s w + i))) \<and> out (calls_to s w + k) = Inr x
       \<and> snd (retry stage_retry fn w) = after_attempts w c 1 k"
proof -
  from retry_cases [OF att] obtain j where j: "j \<le> 5"
    "\<forall>i<j. isl (out (calls_to s w + i))"
    "snd (retry stage_retry fn w) = after_attempts w c 1 j"
    "(case out (calls_to s w + j) of
             Inr x \<Rightarrow> fst (retry stage_retry fn w) = Inr x
           | Inl e \<Rightarrow> j = 5 \<and> fst (retry stage_retry fn w) = Inl (RetryError (future_addr w) e))"
    by blast
  from j(4) res have "out (calls_to s w + j) = Inr x"
    by (cases "out (calls_to s w + j)") auto
  with j show ?thesis by blast
qed

lemma retry_world:
  assumes att: "attempt_of w fn s c out"
  shows "\<exists>k\<le>5. snd (retry stage_retry fn w) = after_attempts w c 1 k"
  using retry_cases [OF att] by blast

lemma attempt_transcribe:
  "fs w p = Some f \<Longrightarrow>
   attempt_of w (transcribe_audio_attempt p) Whisper (Transcriptions_create ''whisper-1'' f)
     (\<lambda>k. whisper w k ''whisper-1'' f)"
  unfolding attempt_of_def
  by (auto simp: transcribe_audio_attempt_def bind_def open_rb_def transcriptions_create_def
           dest!: static_fields)

lemma attempt_chat:
  "attempt_of w (chat_completions_create m ms) Chat (Chat_completions_create m ms)
     (\<lambda>k. chat w k m ms)"
  unfolding attempt_of_def
  by (auto simp: chat_completions_create_def dest!: static_fields)

lemma attempt_speech:
  "attempt_of w (speech_create m v t) Speech (Speech_create m v t) (\<lambda>k. speech w k m v t)"
  unfolding attempt_of_def
  by (auto simp: speech_create_def dest!: static_fields)

lemma after_attempts_fields [simp]:
  "fs (after_attempts w c a k) = fs w"
  "whisper (after_attempts w c a k) = whisper w"
  "chat (after_attempts w c a k) = chat w"
  "speech (after_attempts w c a k) = speech w"
  "future_addr (after_attempts w c a k) = future_addr w"
  "tmp_names (after_attempts w c a k) = tmp_names w"
  "tmp_pos (after_attempts w c a k) = tmp_pos w"
  "rng (after_attempts w c a k) = rng w"
  "calls (after_attempts w c a k) = calls w @ replicate (Suc k) c"
  "rng_pos (after_attempts w c a k) = rng_pos w + k"
  "sleeps (after_attempts w c a k) = sleeps w @ map (\<lambda>i. wait_value w (a + i) (rng_pos w + i)) [0..<k]"
  by (simp_all add: after_attempts_def)

lemma calls_to_after_attempts:
  "calls_to s (after_attempts w c a k) = calls_to s w + (if service_of c = s then Suc k else 0)"
  by (simp add: calls_to_def)

section \<open>Temporary files\<close>

lemma mkstemp_inner_Inr:
  "mkstemp_inner n suffix w = (Inr p, w') \<Longrightarrow>
     fs w p = None \<and> (\<exists>i. w' = w\<lparr>tmp_pos := i, fs := (fs w)(p \<mapsto> [])\<rparr>)"
proof (induction n arbitrary: w)
  case 0
  then show ?case by simp
next
  case (Suc n)
  let ?file = "tempdir @ ''/tmp'' @ tmp_names w (tmp_pos w) @ suffix"
  show ?case
  proof (cases "fs w ?file = None")
    case True
    let ?W = "w\<lparr>tmp_pos := tmp_pos w + 1, fs := (fs w)(?file \<mapsto> [])\<rparr>"
    have run: "mkstemp_inner (Suc n) suffix w = (Inr ?file, ?W)"
      using True by (simp add: Let_def)
    have "(Inr ?file, ?W) = (Inr p :: exn + string, w')"
      using Suc.prems unfolding run .
    then have eq: "?file = p \<and> ?W = w'"
      by blast
    have "fs w p = None" using True eq by blast
    moreover have "w' = w\<lparr>tmp_pos := tmp_pos w + 1, fs := (fs w)(p \<mapsto> [])\<rparr>"
      using eq by blast
    ultimately show ?thesis by blast
  next
    case False
    with Suc.prems have "mkstemp_inner n suffix (w\<lparr>tmp_pos := tmp_pos w + 1\<rparr>) = (Inr p, w')"
      by (simp add: Let_def)
    from Suc.IH [OF this] show ?thesis by simp
  qed
qed

lemma mkstemp_inner_Inl:
  "mkstemp_inner n suffix w = (Inl e, w') \<Longrightarrow> \<exists>i. w' = w\<lparr>tmp_pos := i\<rparr>"
proof (induction n arbitrary: w)
  case 0
  then have "w' = w\<lparr>tmp_pos := tmp_pos w\<rparr>" by simp
  then show ?case by blast
next
  case (Suc n)
  let ?file = "tempdir @ ''/tmp'' @ tmp_names w (tmp_pos w) @ suffix"
  show ?case
  proof (cases "fs w ?file = None")
    case True
    with Suc.prems show ?thesis by (simp add: Let_def)
  next
    case False
    with Suc.prems have "mkstemp_inner n suffix (w\<lparr>tmp_pos := tmp_pos w + 1\<rparr>) = (Inl e, w')"
      by (simp add: Let_def)
    from Suc.IH [OF this] show ?thesis by simp
  qed
qed

lemma NamedTemporaryFile_Inr:
  "NamedTemporaryFile suffix w = (Inr p, w') \<Longrightarrow>
     fs w p = None \<and> (\<exists>i. w' = w\<lparr>tmp_pos := i, fs := (fs w)(p \<mapsto> [])\<rparr>)"
  unfolding NamedTemporaryFile_def by (rule mkstemp_inner_Inr)

lemma NamedTemporaryFile_Inl:
  "NamedTemporaryFile suffix w = (Inl e, w') \<Longrightarrow> \<exists>i. w' = w\<lparr>tmp_pos := i\<rparr>"
  unfolding NamedTemporaryFile_def by (rule mkstemp_inner_Inl)

lemma NamedTemporaryFile_frame:
  assumes "NamedTemporaryFile suffix w = (r, w')"
  shows "calls w' = calls w \<and> sleeps w' = sleeps w \<and> whisper w' = whisper w \<and> chat w' = chat w
       \<and> speech w' = speech w \<and> future_addr w' = future_addr w"
proof (cases r)
  case (Inl e)
  with assms obtain i where "w' = w\<lparr>tmp_pos := i\<rparr>"
    using NamedTemporaryFile_Inl by blast
  then show ?thesis by simp
next
  case (Inr p)
  with assms obtain i where "w' = w\<lparr>tmp_pos := i, fs := (fs w)(p \<mapsto> [])\<rparr>"
    using NamedTemporaryFile_Inr by blast
  then show ?thesis by simp
qed

section \<open>The stages\<close>

lemma transcribe_audio_world:
  "fs w p = Some f \<Longrightarrow>
   \<exists>k\<le>5. snd (transcribe_audio p w) = after_attempts w (Transcriptions_create ''whisper-1'' f) 1 k"
  unfolding transcribe_audio_def by (rule retry_world [OF attempt_transcribe])

lemma generate_chat_response_world:
  "\<exists>k\<le>5. snd (generate_chat_response u w)
      = after_attempts w (Chat_completions_create ''gpt-3.5-turbo'' (chat_messages u)) 1 k"
  unfolding generate_chat_response_def by (rule retry_world [OF attempt_chat])

lemma generate_speech_world:
  "\<exists>k\<le>5. snd (generate_speech t w) = after_attempts w (Speech_create ''tts-1'' ''alloy'' t) 1 k"
  unfolding generate_speech_def by (rule retry_world [OF attempt_speech])

section \<open>The handler, branch by branch\<close>

lemma voice_agent_tmp_audio_fails:
  assumes "map_of (files req) ''audio'' = Some audio"
    and "NamedTemporaryFile ''.wav'' w = (Inl e, w1)"
  shows "voice_agent req w = ((jsonify [(''error'', str e)], 500), w1)"
  using assms by (simp add: voice_agent_def voice_agent_try_def bind_def)

lemma voice_agent_transcription_fails:
  assumes "map_of (files req) ''audio'' = Some audio"
    and "NamedTemporaryFile ''.wav'' w = (Inr p, w1)"
    and "transcribe_audio p (w1\<lparr>fs := (fs w1)(p \<mapsto> audio)\<rparr>) = (Inl e, w2)"
  shows "voice_agent req w = ((jsonify [(''error'', str e)], 500), w2)"
  using assms by (simp add: voice_agent_def voice_agent_try_def bind_def write_file_def)

lemma voice_agent_chat_fails:
  assumes "map_of (files req) ''audio'' = Some audio"
    and "NamedTemporaryFile ''.wav'' w = (Inr p, w1)"
    and "transcribe_audio p (w1\<lparr>fs := (fs w1)(p \<mapsto> audio)\<rparr>) = (Inr u, w2)"
    and "generate_chat_response u w2 = (Inl e, w3)"
  shows "voice_agent req w = ((jsonify [(''error'', str e)], 500), w3)"
  using assms by (simp add: voice_agent_def voice_agent_try_def bind_def write_file_def)

lemma voice_agent_no_choice:
  assumes "map_of (files req) ''audio'' = Some audio"
    and "NamedTemporaryFile ''.wav'' w = (Inr p, w1)"
    and "transcribe_audio p (w1\<lparr>fs := (fs w1)(p \<mapsto> audio)\<rparr>) = (Inr u, w2)"
    and "generate_chat_response u w2 = (Inr [], w3)"
  shows "voice_agent req w = ((jsonify [(''error'', ''list index out of range'')], 500), w3)"
  using assms
  by (simp add: voice_agent_def voice_agent_try_def bind_def write_file_def first_choice_def
        raise_def)

lemma voice_agent_tmp_speech_fails:
  assumes "map_of (files req) ''audio'' = Some audio"
    and "NamedTemporaryFile ''.wav'' w = (Inr p, w1)"
    and "transcribe_audio p (w1\<lparr>fs := (fs w1)(p \<mapsto> audio)\<rparr>) = (Inr u, w2)"
    and "generate_chat_response u w2 = (Inr (t # rest), w3)"
    and "NamedTemporaryFile ''.mp3'' w3 = (Inl e, w4)"
  shows "voice_agent req w = ((jsonify [(''error'', str e)], 500), w4)"
  using assms
  by (simp add: voice_agent_def voice_agent_try_def bind_def write_file_def first_choice_def
        return_def)

lemma voice_agent_speech_fails:
  assumes "map_of (files req) ''audio'' = Some audio"
    and "NamedTemporaryFile ''.wav'' w = (Inr p, w1)"
    and "transcribe_audio p (w1\<lparr>fs := (fs w1)(p \<mapsto> audio)\<rparr>) = (Inr u, w2)"
    and "generate_chat_response u w2 = (Inr (t # rest), w3)"
    and "NamedTemporaryFile ''.mp3'' w3 = (Inr q, w4)"
    and "generate_speech t w4 = (Inl e, w5)"
  shows "voice_agent req w = ((jsonify [(''error'', str e)], 500), w5)"
  using assms
  by (simp add: voice_agent_def voice_agent_try_def bind_def write_file_def first_choice_def
        return_def)

lemma staged_files:
  assumes t1: "NamedTemporaryFile ''.wav'' w = (Inr p, w1)"
    and tr: "transcribe_audio p (w1\<lparr>fs := (fs w1)(p \<mapsto> audio)\<rparr>) = (r2, w2)"
    and ch: "generate_chat_response u w2 = (r3, w3)"
    and t2: "NamedTemporaryFile ''.mp3'' w3 = (Inr q, w4)"
    and sp: "generate_speech t w4 = (r5, w5)"
  shows "p \<noteq> q \<and> fs w5 p = Some audio \<and> fs w5 q = Some []"
proof -
  let ?ws = "w1\<lparr>fs := (fs w1)(p \<mapsto> audio)\<rparr>"
  have s: "fs ?ws p = Some audio" by simp
  from transcribe_audio_world [OF s] tr have f2: "fs w2 = fs ?ws" by auto
  from generate_chat_response_world [of u w2] ch have f3: "fs w3 = fs w2" by auto
  from NamedTemporaryFile_Inr [OF t2] obtain i where
    q: "fs w3 q = None" and w4: "w4 = w3\<lparr>tmp_pos := i, fs := (fs w3)(q \<mapsto> [])\<rparr>" by blast
  from generate_speech_world [of t w4] sp have f5: "fs w5 = fs w4" by auto
  have p3: "fs w3 p = Some audio" by (simp add: f3 f2)
  with q have "p \<noteq> q" by auto
  moreover from this p3 have "fs w5 p = Some audio" by (simp add: f5 w4)
  moreover have "fs w5 q = Some []" by (simp add: f5 w4)
  ultimately show ?thesis by blast
qed

lemma voice_agent_success:
  assumes a: "map_of (files req) ''audio'' = Some audio"
    and t1: "NamedTemporaryFile ''.wav'' w = (Inr p, w1)"
    and tr: "transcribe_audio p (w1\<lparr>fs := (fs w1)(p \<mapsto> audio)\<rparr>) = (Inr u, w2)"
    and ch: "generate_chat_response u w2 = (Inr (t # rest), w3)"
    and t2: "NamedTemporaryFile ''.mp3'' w3 = (Inr q, w4)"
    and sp: "generate_speech t w4 = (Inr synth, w5)"
  shows "voice_agent req w =
           ((jsonify [(''text_response'', t), (''audio_base64'', b64encode synth)], 200),
            w5\<lparr>fs := (fs w5)(p := None, q := None)\<rparr>)"
proof -
  from staged_files [OF t1 tr ch t2 sp]
  have f: "p \<noteq> q" "fs w5 p = Some audio" by auto
  show ?thesis
    using assms f
    by (simp add: voice_agent_def voice_agent_try_def bind_def write_file_def first_choice_def
          return_def open_rb_def os_remove_def)
qed

section \<open>What a stage leaves behind\<close>

lemma calls_to_replicate:
  "calls w' = calls w @ replicate n c \<Longrightarrow>
   calls_to s w' = calls_to s w + (if service_of c = s then n else 0)"
  by (simp add: calls_to_def)

lemma transcribe_audio_result:
  assumes f: "fs w p = Some f"
    and run: "transcribe_audio p w = (r, w')"
  shows "\<exists>k\<le>5. w' = after_attempts w (Transcriptions_create ''whisper-1'' f) 1 k
     \<and> (case r of
           Inr u \<Rightarrow> whisper w (calls_to Whisper w + k) ''whisper-1'' f = Inr u
         | Inl e \<Rightarrow> k = 5 \<and> (\<exists>e'. whisper w (calls_to Whisper w + 5) ''whisper-1'' f = Inl e'
                       \<and> e = RetryError (future_addr w) e'))"
proof (cases r)
  case (Inl e)
  with run have "fst (retry stage_retry (transcribe_audio_attempt p) w) = Inl e"
    by (simp add: transcribe_audio_def)
  from retry_Inl [OF attempt_transcribe [OF f] this] run Inl show ?thesis
    by (auto simp: transcribe_audio_def)
next
  case (Inr u)
  with run have "fst (retry stage_retry (transcribe_audio_attempt p) w) = Inr u"
    by (simp add: transcribe_audio_def)
  from retry_Inr [OF attempt_transcribe [OF f] this] run Inr show ?thesis
    by (auto simp: transcribe_audio_def)
qed

lemma generate_chat_response_result:
  assumes run: "generate_chat_response u w = (r, w')"
  shows "\<exists>k\<le>5. w' = after_attempts w (Chat_completions_create ''gpt-3.5-turbo'' (chat_messages u)) 1 k
     \<and> (case r of
           Inr choices \<Rightarrow>
             chat w (calls_to Chat w + k) ''gpt-3.5-turbo'' (chat_messages u) = Inr choices
         | Inl e \<Rightarrow> k = 5 \<and> (\<exists>e'. chat w (calls_to Chat w + 5) ''gpt-3.5-turbo'' (chat_messages u) = Inl e'
                       \<and> e = RetryError (future_addr w) e'))"
proof (cases r)
  case (Inl e)
  with run have "fst (retry stage_retry
      (chat_completions_create ''gpt-3.5-turbo'' (chat_messages u)) w) = Inl e"
    by (simp add: generate_chat_response_def)
  from retry_Inl [OF attempt_chat this] run Inl show ?thesis
    by (auto simp: generate_chat_response_def)
next
  case (Inr choices)
  with run have "fst (retry stage_retry
      (chat_completions_create ''gpt-3.5-turbo'' (chat_messages u)) w) = Inr choices"
    by (simp add: generate_chat_response_def)
  from retry_Inr [OF attempt_chat this] run Inr show ?thesis
    by (auto simp: generate_chat_response_def)
qed

lemma generate_speech_result:
  assumes run: "generate_speech t w = (r, w')"
  shows "\<exists>k\<le>5. w' = after_attempts w (Speech_create ''tts-1'' ''alloy'' t) 1 k
     \<and> (case r of
           Inr synth \<Rightarrow> speech w (calls_to Speech w + k) ''tts-1'' ''alloy'' t = Inr synth
         | Inl e \<Rightarrow> k = 5 \<and> (\<exists>e'. speech w (calls_to Speech w + 5) ''tts-1'' ''alloy'' t = Inl e'
                       \<and> e = RetryError (future_addr w) e'))"
proof (cases r)
  case (Inl e)
  with run have "fst (retry stage_retry (speech_create ''tts-1'' ''alloy'' t) w) = Inl e"
    by (simp add: generate_speech_def)
  from retry_Inl [OF attempt_speech this] run Inl show ?thesis
    by (auto simp: generate_speech_def)
next
  case (Inr synth)
  with run have "fst (retry stage_retry (speech_create ''tts-1'' ''alloy'' t) w) = Inr synth"
    by (simp add: generate_speech_def)
  from retry_Inr [OF attempt_speech this] run Inr show ?thesis
    by (auto simp: generate_speech_def)
qed

section \<open>From what the services answer to what a stage returns\<close>








section \<open>Every run of the handler\<close>

lemma is_error_response_jsonify [simp]:
  "is_error_response (jsonify [(''error'', s)], 400)"
  "is_error_response (jsonify [(''error'', s)], 500)"
  by (simp_all add: is_error_response_def jsonify_def)

lemma voice_agent_runs:
  "\<exists>k1 k2 k3 audio u t rest synth. run_summary req w k1 k2 k3 audio u t rest synth"
proof (cases "map_of (files req) ''audio''")
  case None
  then have "voice_agent req w = ((jsonify [(''error'', ''No audio file provided'')], 400), w)"
    by (simp add: voice_agent_def voice_agent_try_def return_def)
  with None have "run_summary req w 0 0 0 [] [] [] [] []"
    by (simp add: run_summary_def)
  then show ?thesis by blast
next
  case (Some audio)
  obtain r1 w1 where t1: "NamedTemporaryFile ''.wav'' w = (r1, w1)"
    by (cases "NamedTemporaryFile ''.wav'' w")
  from NamedTemporaryFile_frame [OF t1]
  have fr1: "calls w1 = calls w" "whisper w1 = whisper w" "chat w1 = chat w" "speech w1 = speech w"
    by simp_all
  show ?thesis
  proof (cases r1)
    case (Inl e)
    from voice_agent_tmp_audio_fails [OF Some t1 [unfolded Inl]]
    have "run_summary req w 0 0 0 [] [] [] [] []"
      using Some t1 [unfolded Inl] by (simp add: run_summary_def fr1)
    then show ?thesis by blast
  next
    case (Inr p)
    note t1 = t1 [unfolded Inr]
    let ?ws = "w1\<lparr>fs := (fs w1)(p \<mapsto> audio)\<rparr>"
    let ?cW = "Transcriptions_create ''whisper-1'' audio"
    obtain r2 w2 where tr: "transcribe_audio p ?ws = (r2, w2)"
      by (cases "transcribe_audio p ?ws")
    have s: "fs ?ws p = Some audio" by simp
    have nW: "calls_to Whisper ?ws = calls_to Whisper w" by (simp add: calls_to_def fr1)
    from transcribe_audio_result [OF s tr] obtain k1 where k1: "k1 \<le> 5"
      and w2: "w2 = after_attempts ?ws ?cW 1 k1"
      and o1: "case r2 of
           Inr u \<Rightarrow> whisper ?ws (calls_to Whisper ?ws + k1) ''whisper-1'' audio = Inr u
         | Inl e \<Rightarrow> k1 = 5 \<and> (\<exists>e'. whisper ?ws (calls_to Whisper ?ws + 5) ''whisper-1'' audio = Inl e'
                       \<and> e = RetryError (future_addr ?ws) e')"
      by blast
    have c2: "calls w2 = calls w @ replicate (Suc k1) ?cW" by (simp add: w2 fr1)
    have fr2: "whisper w2 = whisper w" "chat w2 = chat w" "speech w2 = speech w"
      by (simp_all add: w2 fr1)
    show ?thesis
    proof (cases r2)
      case (Inl e)
      from voice_agent_transcription_fails [OF Some t1 tr [unfolded Inl]]
      have "run_summary req w (Suc k1) 0 0 audio [] [] [] []"
        using k1 c2 Some by (simp add: run_summary_def)
      then show ?thesis by blast
    next
      case (Inr u)
      note tr = tr [unfolded Inr]
      from o1 Inr have ou: "whisper w (calls_to Whisper w + k1) ''whisper-1'' audio = Inr u"
        by (simp add: nW fr1)
      let ?cC = "Chat_completions_create ''gpt-3.5-turbo'' (chat_messages u)"
      obtain r3 w3 where ch: "generate_chat_response u w2 = (r3, w3)"
        by (cases "generate_chat_response u w2")
      have nC: "calls_to Chat w2 = calls_to Chat w" by (simp add: calls_to_def c2)
      from generate_chat_response_result [OF ch] obtain k2 where k2: "k2 \<le> 5"
        and w3: "w3 = after_attempts w2 ?cC 1 k2"
        and o2: "case r3 of
           Inr choices \<Rightarrow>
             chat w2 (calls_to Chat w2 + k2) ''gpt-3.5-turbo'' (chat_messages u) = Inr choices
         | Inl e \<Rightarrow> k2 = 5 \<and> (\<exists>e'. chat w2 (calls_to Chat w2 + 5) ''gpt-3.5-turbo'' (chat_messages u) = Inl e'
                       \<and> e = RetryError (future_addr w2) e')"
        by blast
      have c3: "calls w3 = calls w @ replicate (Suc k1) ?cW @ replicate (Suc k2) ?cC"
        by (simp add: w3 c2)
      have fr3: "speech w3 = speech w" by (simp add: w3 fr2)
      show ?thesis
      proof (cases r3)
        case (Inl e)
        from voice_agent_chat_fails [OF Some t1 tr ch [unfolded Inl]]
        have "run_summary req w (Suc k1) (Suc k2) 0 audio u [] [] []"
          using k1 k2 c3 Some ou by (simp add: run_summary_def)
        then show ?thesis by blast
      next
        case (Inr choices)
        note ch = ch [unfolded Inr]
        from o2 Inr have oc: "chat w (calls_to Chat w + k2) ''gpt-3.5-turbo'' (chat_messages u) = Inr choices"
          by (simp add: nC fr2)
        show ?thesis
        proof (cases choices)
          case Nil
          from voice_agent_no_choice [OF Some t1 tr ch [unfolded Nil]]
          have "run_summary req w (Suc k1) (Suc k2) 0 audio u [] [] []"
            using k1 k2 c3 Some ou by (simp add: run_summary_def)
          then show ?thesis by blast
        next
          case (Cons t rest)
          note ch = ch [unfolded Cons]
          note oc = oc [unfolded Cons]
          let ?cS = "Speech_create ''tts-1'' ''alloy'' t"
          obtain r4 w4 where t2: "NamedTemporaryFile ''.mp3'' w3 = (r4, w4)"
            by (cases "NamedTemporaryFile ''.mp3'' w3")
          from NamedTemporaryFile_frame [OF t2]
          have fr4: "calls w4 = calls w3" "speech w4 = speech w3" by simp_all
          show ?thesis
          proof (cases r4)
            case (Inl e)
            from voice_agent_tmp_speech_fails [OF Some t1 tr ch t2 [unfolded Inl]]
            have "run_summary req w (Suc k1) (Suc k2) 0 audio u [] [] []"
              using k1 k2 c3 Some ou fr4 by (simp add: run_summary_def)
            then show ?thesis by blast
          next
            case (Inr q)
            note t2 = t2 [unfolded Inr]
            obtain r5 w5 where sp: "generate_speech t w4 = (r5, w5)"
              by (cases "generate_speech t w4")
            have nS: "calls_to Speech w4 = calls_to Speech w" by (simp add: calls_to_def fr4 c3)
            from generate_speech_result [OF sp] obtain k3 where k3: "k3 \<le> 5"
              and w5: "w5 = after_attempts w4 ?cS 1 k3"
              and o3: "case r5 of
                 Inr synth \<Rightarrow> speech w4 (calls_to Speech w4 + k3) ''tts-1'' ''alloy'' t = Inr synth
               | Inl e \<Rightarrow> k3 = 5 \<and> (\<exists>e'. speech w4 (calls_to Speech w4 + 5) ''tts-1'' ''alloy'' t = Inl e'
                       \<and> e = RetryError (future_addr w4) e')"
              by blast
            have c5: "calls w5 = calls w @ replicate (Suc k1) ?cW @ replicate (Suc k2) ?cC
                @ replicate (Suc k3) ?cS"
              by (simp add: w5 fr4 c3)
            show ?thesis
            proof (cases r5)
              case (Inl e)
              from voice_agent_speech_fails [OF Some t1 tr ch t2 sp [unfolded Inl]]
              have "run_summary req w (Suc k1) (Suc k2) (Suc k3) audio u t rest []"
                using k1 k2 k3 c5 Some ou oc by (simp add: run_summary_def)
              then show ?thesis by blast
            next
              case (Inr synth)
              from o3 Inr have os: "speech w (calls_to Speech w + k3) ''tts-1'' ''alloy'' t = Inr synth"
                by (simp add: nS fr4 fr3)
              from voice_agent_success [OF Some t1 tr ch t2 sp [unfolded Inr]]
              have "run_summary req w (Suc k1) (Suc k2) (Suc k3) audio u t rest synth"
                using k1 k2 k3 c5 Some ou oc os by (simp add: run_summary_def)
              then show ?thesis by blast
            qed
          qed
        qed
      qed
    qed
  qed
qed

section \<open>base64 round trip\<close>

lemma index_of_nth:
  "distinct xs \<Longrightarrow> i < length xs \<Longrightarrow> index_of xs (xs ! i) = Some i"
proof (induction xs arbitrary: i)
  case Nil
  then show ?case by simp
next
  case (Cons x xs)
  show ?case
  proof (cases i)
    case 0
    then show ?thesis by simp
  next
    case (Suc j)
    with Cons.prems have "xs ! j \<noteq> x" "index_of xs (xs ! j) = Some j"
      using Cons.IH [of j] by auto
    with Suc show ?thesis by simp
  qed
qed

lemma b64_alphabet_distinct: "distinct b64_alphabet"
  by (simp add: b64_alphabet_def)

lemma b64_alphabet_length: "length b64_alphabet = 64"
  by (simp add: b64_alphabet_def)

lemma b64_value_char: "b64_value (b64_char i) = Some (i mod 64)"
  unfolding b64_value_def b64_char_def
  by (rule index_of_nth [OF b64_alphabet_distinct]) (simp add: b64_alphabet_length)

lemma b64_char_not_pad: "b64_char i \<noteq> CHR ''=''"
proof -
  have "b64_char i \<in> set b64_alphabet"
    unfolding b64_char_def by (rule nth_mem) (simp add: b64_alphabet_length)
  moreover have "CHR ''='' \<notin> set b64_alphabet" by (simp add: b64_alphabet_def)
  ultimately show ?thesis by metis
qed

lemma sextets_low: "(n::nat) div 64 mod 64 * 64 + n mod 64 = n mod 4096"
  using mod_mult2_eq [of n 64 64] by simp

lemma sextets_mid: "(n::nat) div 4096 mod 64 * 4096 + n mod 4096 = n mod 262144"
  using mod_mult2_eq [of n 4096 64] by simp

lemma sextets_high: "(n::nat) div 262144 mod 64 * 262144 + n mod 262144 = n mod 16777216"
  using mod_mult2_eq [of n 262144 64] by simp

lemma sextets_join:
  fixes n :: nat
  assumes "n < 16777216"
  shows "n div 262144 mod 64 * 262144 + n div 4096 mod 64 * 4096 + n div 64 mod 64 * 64 + n mod 64 = n"
proof -
  have "n mod 16777216 = n" using assms by simp
  with sextets_low [of n] sextets_mid [of n] sextets_high [of n] show ?thesis by linarith
qed

lemma sextets_join3:
  fixes n :: nat
  assumes "n < 16777216" "n mod 64 = 0"
  shows "n div 262144 mod 64 * 262144 + n div 4096 mod 64 * 4096 + n div 64 mod 64 * 64 = n"
  using sextets_join [OF assms(1)] assms(2) by linarith

lemma sextets_join2:
  fixes n :: nat
  assumes "n < 16777216" "n mod 4096 = 0"
  shows "n div 262144 mod 64 * 262144 + n div 4096 mod 64 * 4096 = n"
proof -
  have "n mod 16777216 = n" using assms by simp
  with sextets_mid [of n] sextets_high [of n] assms(2) show ?thesis by linarith
qed

lemma byte_bound: "unat (a :: byte) < 256"
  using unsigned_less [of a] by simp

lemma group_bound: "unat (a :: byte) * 65536 + unat (b :: byte) * 256 + unat (c :: byte) < 16777216"
  using byte_bound [of a] byte_bound [of b] byte_bound [of c] by linarith

lemma group_div_65536:
  "(unat (a :: byte) * 65536 + unat (b :: byte) * 256 + unat (c :: byte)) div 65536 = unat a"
proof -
  have "unat b * 256 + unat c < 65536"
    using byte_bound [of b] byte_bound [of c] by linarith
  then have "(unat b * 256 + unat c) div 65536 = 0" by simp
  moreover have "(unat a * 65536 + (unat b * 256 + unat c)) div 65536
      = unat a + (unat b * 256 + unat c) div 65536"
    by (rule div_mult_self3) simp
  ultimately show ?thesis by (simp add: add.assoc)
qed

lemma group_div_256:
  "(unat (a :: byte) * 65536 + unat (b :: byte) * 256 + unat (c :: byte)) div 256
     = unat a * 256 + unat b"
proof -
  have "unat c div 256 = 0" using byte_bound [of c] by simp
  moreover have "((unat a * 256 + unat b) * 256 + unat c) div 256
      = (unat a * 256 + unat b) + unat c div 256"
    by (rule div_mult_self3) simp
  moreover have "(unat a * 256 + unat b) * 256 = unat a * 65536 + unat b * 256" by simp
  ultimately show ?thesis by simp
qed

lemma byte_of_group:
  fixes a b c :: byte
  shows "word_of_nat ((unat a * 65536 + unat b * 256 + unat c) div 65536) = a"
    and "word_of_nat ((unat a * 65536 + unat b * 256 + unat c) div 256) = b"
    and "word_of_nat (unat a * 65536 + unat b * 256 + unat c) = c"
proof -
  show "word_of_nat ((unat a * 65536 + unat b * 256 + unat c) div 65536) = a"
    unfolding group_div_65536 by simp
  have z: "(256 :: byte) = 0" "(65536 :: byte) = 0" by simp_all
  show "word_of_nat ((unat a * 65536 + unat b * 256 + unat c) div 256) = b"
    unfolding group_div_256 by (simp add: z)
  show "word_of_nat (unat a * 65536 + unat b * 256 + unat c) = c"
    by (simp add: z)
qed

lemma b64decode_pad2:
  "b64decode [b64_char x1, b64_char x2, CHR ''='', CHR ''='']
     = Some [word_of_nat ((x1 mod 64 * 262144 + x2 mod 64 * 4096) div 65536)]"
  by (simp add: b64_value_char)

lemma b64decode_pad1:
  "b64decode [b64_char x1, b64_char x2, b64_char x3, CHR ''='']
     = Some [word_of_nat ((x1 mod 64 * 262144 + x2 mod 64 * 4096 + x3 mod 64 * 64) div 65536),
             word_of_nat ((x1 mod 64 * 262144 + x2 mod 64 * 4096 + x3 mod 64 * 64) div 256)]"
  by (simp add: b64_value_char b64_char_not_pad Let_def)

lemma b64decode_group:
  "b64decode (b64_char x1 # b64_char x2 # b64_char x3 # b64_char x4 # cs)
     = map_option
         (\<lambda>bs. [word_of_nat ((x1 mod 64 * 262144 + x2 mod 64 * 4096 + x3 mod 64 * 64 + x4 mod 64) div 65536),
                word_of_nat ((x1 mod 64 * 262144 + x2 mod 64 * 4096 + x3 mod 64 * 64 + x4 mod 64) div 256),
                word_of_nat (x1 mod 64 * 262144 + x2 mod 64 * 4096 + x3 mod 64 * 64 + x4 mod 64)] @ bs)
         (b64decode cs)"
  by (cases "b64decode cs") (simp_all add: b64_value_char b64_char_not_pad Let_def)

lemma b64decode_b64encode: "b64decode (b64encode bs) = Some bs"
proof (induction bs rule: b64encode.induct)
  case 1
  show ?case by simp
next
  case (2 a)
  let ?n = "unat a * 65536"
  have n: "?n < 16777216" "?n mod 4096 = 0"
    using byte_bound [of a] by simp_all
  have "b64decode (b64encode [a])
      = b64decode [b64_char (?n div 262144), b64_char (?n div 4096), CHR ''='', CHR ''='']"
    by (simp add: Let_def)
  also have "\<dots> = Some [word_of_nat
      ((?n div 262144 mod 64 * 262144 + ?n div 4096 mod 64 * 4096) div 65536)]"
    by (rule b64decode_pad2)
  also have "\<dots> = Some [word_of_nat (?n div 65536)]"
    by (simp only: sextets_join2 [OF n])
  also have "\<dots> = Some [a]" by simp
  finally show ?case .
next
  case (3 a b)
  let ?n = "unat a * 65536 + unat b * 256"
  have n: "?n < 16777216" "?n mod 64 = 0"
    using group_bound [of a b 0] by simp_all
  have d1: "?n div 65536 = unat a" using group_div_65536 [of a b 0] by simp
  have d2: "?n div 256 = unat a * 256 + unat b" using group_div_256 [of a b 0] by simp
  have z: "(256 :: byte) = 0" by simp
  have "b64decode (b64encode [a, b])
      = b64decode [b64_char (?n div 262144), b64_char (?n div 4096), b64_char (?n div 64),
          CHR ''='']"
    by (simp add: Let_def)
  also have "\<dots> = Some
     [word_of_nat ((?n div 262144 mod 64 * 262144 + ?n div 4096 mod 64 * 4096
         + ?n div 64 mod 64 * 64) div 65536),
      word_of_nat ((?n div 262144 mod 64 * 262144 + ?n div 4096 mod 64 * 4096
         + ?n div 64 mod 64 * 64) div 256)]"
    by (rule b64decode_pad1)
  also have "\<dots> = Some [word_of_nat (?n div 65536), word_of_nat (?n div 256)]"
    by (simp only: sextets_join3 [OF n])
  also have "\<dots> = Some [a, b]" unfolding d1 d2 by (simp add: z)
  finally show ?case .
next
  case (4 a b c rest)
  let ?n = "unat a * 65536 + unat b * 256 + unat c"
  have n: "?n < 16777216" by (rule group_bound)
  have "b64decode (b64encode (a # b # c # rest))
      = b64decode (b64_char (?n div 262144) # b64_char (?n div 4096) # b64_char (?n div 64)
          # b64_char ?n # b64encode rest)"
    by (simp add: Let_def)
  also have "\<dots> = map_option
         (\<lambda>bs. [word_of_nat ((?n div 262144 mod 64 * 262144 + ?n div 4096 mod 64 * 4096
                     + ?n div 64 mod 64 * 64 + ?n mod 64) div 65536),
                word_of_nat ((?n div 262144 mod 64 * 262144 + ?n div 4096 mod 64 * 4096
                     + ?n div 64 mod 64 * 64 + ?n mod 64) div 256),
                word_of_nat (?n div 262144 mod 64 * 262144 + ?n div 4096 mod 64 * 4096
                     + ?n div 64 mod 64 * 64 + ?n mod 64)] @ bs)
         (b64decode (b64encode rest))"
    by (rule b64decode_group)
  also have "\<dots> = map_option
         (\<lambda>bs. [word_of_nat (?n div 65536), word_of_nat (?n div 256), word_of_nat ?n] @ bs)
         (b64decode (b64encode rest))"
    by (simp only: sextets_join [OF n])
  also have "\<dots> = Some (a # b # c # rest)"
    by (simp only: byte_of_group "4.IH") simp
  finally show ?case .
qed

lemma b64encode_empty_iff: "b64encode bs = [] \<longleftrightarrow> bs = []"
  by (induction bs rule: b64encode.induct) (simp_all add: Let_def)

section \<open>Running the handler on a given world\<close>

lemma mkstemp_inner_unfold:
  "0 < n \<Longrightarrow> mkstemp_inner n suffix w =
     (let file = tempdir @ ''/tmp'' @ tmp_names w (tmp_pos w) @ suffix;
          w1 = w\<lparr>tmp_pos := tmp_pos w + 1\<rparr>
      in if fs w file \<noteq> None then mkstemp_inner (n - 1) suffix w1
         else (Inr file, w1\<lparr>fs := (fs w1)(file \<mapsto> [])\<rparr>))"
  by (cases n) (simp_all add: Let_def)

lemmas run_simps =
  voice_agent_def voice_agent_try_def bind_def return_def raise_def write_file_def open_rb_def
  os_remove_def first_choice_def NamedTemporaryFile_def TMP_MAX_def mkstemp_inner_unfold tempdir_def
  transcribe_audio_def transcribe_audio_attempt_def generate_chat_response_def generate_speech_def
  retry_def retrying_call.simps stage_retry_def wait_random_exponential_def uniform_def random_def
  wait_exponential_def sleep_def calls_to_def transcriptions_create_def chat_completions_create_def
  speech_create_def jsonify_def chat_messages_def system_instruction_def Let_def

section \<open>The retry budget, stage by stage and for the whole pipeline\<close>







section \<open>Temporary files after a failed request\<close>

text \<open>
  C1. The claim is that both temporary files of a request are gone when the handler
  returns, on success and on failure alike. The handler removes them only on the path
  that reaches \<open>os.remove\<close>: with the synthesis service raising on every call, the
  request is answered with 500 and both files, absent before the request, are still
  there after it: the staged upload with its four bytes, and the empty speech file.
\<close>

theorem temporary_files_left_after_failure:
  "fs speech_down ''/tmp/tmpa.wav'' = None
   \<and> fs speech_down ''/tmp/tmpaa.mp3'' = None
   \<and> snd (fst (voice_agent example_request speech_down)) = 500
   \<and> fs (snd (voice_agent example_request speech_down)) ''/tmp/tmpa.wav'' = Some [82, 73, 70, 70]
   \<and> fs (snd (voice_agent example_request speech_down)) ''/tmp/tmpaa.mp3'' = Some []"
  by (simp add: run_simps speech_down_def example_world_def example_request_def)

section \<open>What is raised when the retry budget is exhausted\<close>

text \<open>
  C2, as stated: after the last attempt the exception of that attempt reaches the
  handler as it is, so that the 500 body carries its message. It does not: with the
  transcription service raising \<open>Connection error.\<close> on every call, the sixth call
  included, the error field is the text of a \<open>RetryError\<close>, which names the class of
  that exception and not its message.
\<close>

theorem exhausted_retry_message_counterexample:
  "whisper whisper_down 5 ''whisper-1'' [82, 73, 70, 70]
     = Inl (Exc ''APIConnectionError'' ''Connection error.'')
   \<and> fst (voice_agent example_request whisper_down)
       = (JObject [(''error'',
            JString ''RetryError[<Future at 0xff state=finished raised APIConnectionError>]'')], 500)
   \<and> fst (voice_agent example_request whisper_down)
       \<noteq> (JObject [(''error'', JString ''Connection error.'')], 500)"
  by (simp add: run_simps whisper_down_def example_world_def example_request_def hex.simps
        hex_digit_def)

text \<open>
  C2, amended. When a stage wrapper raises, its six attempts have all raised, and what it
  raises is a \<open>RetryError\<close> around the exception of the sixth attempt; the handler
  answers a \<open>RetryError\<close> with status 500 and the error field
  \<open>RetryError[<Future at 0x... state=finished raised CLASS>]\<close>, where \<open>CLASS\<close> is the
  class of that exception.
\<close>

theorem exhausted_retry_raises_RetryError:
  "(fs w p = Some f \<longrightarrow> fst (transcribe_audio p w) = Inl e1 \<longrightarrow>
      (\<exists>e'. whisper w (calls_to Whisper w + 5) ''whisper-1'' f = Inl e'
            \<and> e1 = RetryError (future_addr w) e'))
   \<and> (fst (generate_chat_response u w) = Inl e2 \<longrightarrow>
      (\<exists>e'. chat w (calls_to Chat w + 5) ''gpt-3.5-turbo'' (chat_messages u) = Inl e'
            \<and> e2 = RetryError (future_addr w) e'))
   \<and> (fst (generate_speech t w) = Inl e3 \<longrightarrow>
      (\<exists>e'. speech w (calls_to Speech w + 5) ''tts-1'' ''alloy'' t = Inl e'
            \<and> e3 = RetryError (future_addr w) e'))
   \<and> (fst (voice_agent_try req w) = Inl (RetryError a e) \<longrightarrow>
      fst (voice_agent req w)
        = (JObject [(''error'', JString (''RetryError[<Future at 0x'' @ hex a
              @ '' state=finished raised '' @ class_name e @ ''>]''))], 500))"
proof (intro conjI impI)
  assume f: "fs w p = Some f" and r: "fst (transcribe_audio p w) = Inl e1"
  obtain w' where "transcribe_audio p w = (Inl e1, w')"
    using r by (cases "transcribe_audio p w") simp
  from transcribe_audio_result [OF f this]
  show "\<exists>e'. whisper w (calls_to Whisper w + 5) ''whisper-1'' f = Inl e'
            \<and> e1 = RetryError (future_addr w) e'"
    by auto
next
  assume r: "fst (generate_chat_response u w) = Inl e2"
  obtain w' where "generate_chat_response u w = (Inl e2, w')"
    using r by (cases "generate_chat_response u w") simp
  from generate_chat_response_result [OF this]
  show "\<exists>e'. chat w (calls_to Chat w + 5) ''gpt-3.5-turbo'' (chat_messages u) = Inl e'
            \<and> e2 = RetryError (future_addr w) e'"
    by auto
next
  assume r: "fst (generate_speech t w) = Inl e3"
  obtain w' where "generate_speech t w = (Inl e3, w')"
    using r by (cases "generate_speech t w") simp
  from generate_speech_result [OF this]
  show "\<exists>e'. speech w (calls_to Speech w + 5) ''tts-1'' ''alloy'' t = Inl e'
            \<and> e3 = RetryError (future_addr w) e'"
    by auto
next
  assume r: "fst (voice_agent_try req w) = Inl (RetryError a e)"
  then show "fst (voice_agent req w)
        = (JObject [(''error'', JString (''RetryError[<Future at 0x'' @ hex a
              @ '' state=finished raised '' @ class_name e @ ''>]''))], 500)"
    by (cases "voice_agent_try req w") (simp add: voice_agent_def jsonify_def)
qed

theorem exhausted_retry_raises_RetryError_witness:
  "fs outage_world ''/srv/in.wav'' = Some [1, 2]
   \<and> fst (transcribe_audio ''/srv/in.wav'' outage_world)
       = Inl (RetryError 255 (Exc ''APIConnectionError'' ''Connection error.''))
   \<and> fst (generate_chat_response ''hello'' outage_world)
       = Inl (RetryError 255 (Exc ''RateLimitError'' ''Rate limit reached''))
   \<and> fst (generate_speech ''Hi'' outage_world)
       = Inl (RetryError 255 (Exc ''APITimeoutError'' ''Request timed out.''))
   \<and> fst (voice_agent_try example_request outage_world)
       = Inl (RetryError 255 (Exc ''APIConnectionError'' ''Connection error.''))
   \<and> whisper outage_world (calls_to Whisper outage_world + 5) ''whisper-1'' [1, 2]
       = Inl (Exc ''APIConnectionError'' ''Connection error.'')
   \<and> fst (voice_agent example_request outage_world)
       = (JObject [(''error'', JString (''RetryError[<Future at 0x'' @ hex 255
              @ '' state=finished raised APIConnectionError>]''))], 500)"
  using exhausted_retry_raises_RetryError
    [of outage_world "''/srv/in.wav''" "[1, 2]"
        "RetryError 255 (Exc ''APIConnectionError'' ''Connection error.'')"
        "''hello''" "RetryError 255 (Exc ''RateLimitError'' ''Rate limit reached'')"
        "''Hi''" "RetryError 255 (Exc ''APITimeoutError'' ''Request timed out.'')"
        example_request 255 "Exc ''APIConnectionError'' ''Connection error.''"]
  by (simp add: run_simps outage_world_def example_world_def example_request_def)

section \<open>The handler: missing audio\<close>

text \<open>
  C3. A request whose multipart form has no file field named \<open>audio\<close>, whatever its other
  fields, is answered with HTTP 400 and the body \<open>{"error": "No audio file provided"}\<close>,
  and the world is left as it was: no call on an external service, no sleep of the retry
  wrapper, no temporary file.
\<close>

theorem voice_agent_missing_audio:
  assumes "''audio'' \<notin> fst ` set (files req)"
  shows "voice_agent req w =
           ((JObject [(''error'', JString ''No audio file provided'')], 400), w)"
proof -
  from assms have "map_of (files req) ''audio'' = None"
    by (simp add: map_of_eq_None_iff)
  then show ?thesis
    by (simp add: voice_agent_def voice_agent_try_def return_def jsonify_def)
qed

theorem voice_agent_missing_audio_witness:
  "''audio'' \<notin> fst ` set (files \<lparr>form = [(''audio'', ''x''), (''lang'', ''en'')],
                                     files = [(''upload'', [1, 2, 3])]\<rparr>)
   \<and> voice_agent \<lparr>form = [(''audio'', ''x''), (''lang'', ''en'')],
                    files = [(''upload'', [1, 2, 3])]\<rparr> example_world
       = ((JObject [(''error'', JString ''No audio file provided'')], 400), example_world)"
  using voice_agent_missing_audio
    [of "\<lparr>form = [(''audio'', ''x''), (''lang'', ''en'')], files = [(''upload'', [1, 2, 3])]\<rparr>"
        example_world]
  by simp

section \<open>The retry budget\<close>




section \<open>The order of the stages\<close>

text \<open>
  C5. When the transcription stage raises once its retries are used up, the handler
  answers status 500 with an error body, having made six transcription calls and no
  call on the completion or the synthesis service. And in every run the calls of a
  request come in the order of the stages: transcription calls, then completion calls,
  then synthesis calls.
\<close>

theorem transcription_failure_stops_pipeline:
  "(map_of (files req) ''audio'' = Some audio \<longrightarrow>
    NamedTemporaryFile ''.wav'' w = (Inr p, w1) \<longrightarrow>
    transcribe_audio p (staged p audio w1) = (Inl e, w2) \<longrightarrow>
      voice_agent req w = ((JObject [(''error'', JString (str e))], 500), w2)
      \<and> calls w2 = calls w @ replicate 6 (Transcriptions_create ''whisper-1'' audio)
      \<and> calls_to Chat w2 = calls_to Chat w
      \<and> calls_to Speech w2 = calls_to Speech w)
   \<and> take (length (calls w)) (calls (snd (voice_agent req w))) = calls w
   \<and> in_stage_order (drop (length (calls w)) (calls (snd (voice_agent req w))))"
proof (intro conjI impI)
  assume a: "map_of (files req) ''audio'' = Some audio"
    and t1: "NamedTemporaryFile ''.wav'' w = (Inr p, w1)"
    and tr: "transcribe_audio p (staged p audio w1) = (Inl e, w2)"
  from NamedTemporaryFile_frame [OF t1] have c1: "calls w1 = calls w" by simp
  have s: "fs (staged p audio w1) p = Some audio" by (simp add: staged_def)
  from transcribe_audio_result [OF s tr]
  have w2: "w2 = after_attempts (staged p audio w1) (Transcriptions_create ''whisper-1'' audio) 1 5"
    by auto
  show "voice_agent req w = ((JObject [(''error'', JString (str e))], 500), w2)"
    using voice_agent_transcription_fails [of req audio w p w1 e w2] a t1 tr
    by (simp add: staged_def jsonify_def)
  show c2: "calls w2 = calls w @ replicate 6 (Transcriptions_create ''whisper-1'' audio)"
    by (simp add: w2 staged_def c1)
  show "calls_to Chat w2 = calls_to Chat w" by (simp add: calls_to_def c2)
  show "calls_to Speech w2 = calls_to Speech w" by (simp add: calls_to_def c2)
next
  from voice_agent_runs [of req w] obtain k1 k2 k3 audio u t rest synth
    where "run_summary req w k1 k2 k3 audio u t rest synth" by blast
  then have c: "calls (snd (voice_agent req w)) =
         calls w @ replicate k1 (Transcriptions_create ''whisper-1'' audio)
           @ replicate k2 (Chat_completions_create ''gpt-3.5-turbo'' (chat_messages u))
           @ replicate k3 (Speech_create ''tts-1'' ''alloy'' t)"
    by (simp add: run_summary_def)
  show "take (length (calls w)) (calls (snd (voice_agent req w))) = calls w"
    by (simp add: c)
  show "in_stage_order (drop (length (calls w)) (calls (snd (voice_agent req w))))"
    by (simp add: c in_stage_order_def sorted_append)
qed

theorem transcription_failure_stops_pipeline_witness:
  "transcribe_audio ''/tmp/tmpa.wav''
       (staged ''/tmp/tmpa.wav'' [82, 73, 70, 70] (snd (NamedTemporaryFile ''.wav'' whisper_down)))
     = (Inl (RetryError 255 (Exc ''APIConnectionError'' ''Connection error.'')),
        snd (voice_agent example_request whisper_down))
   \<and> snd (fst (voice_agent example_request whisper_down)) = 500
   \<and> calls (snd (voice_agent example_request whisper_down))
       = replicate 6 (Transcriptions_create ''whisper-1'' [82, 73, 70, 70])
   \<and> calls_to Chat (snd (voice_agent example_request whisper_down)) = 0"
proof -
  let ?w1 = "snd (NamedTemporaryFile ''.wav'' whisper_down)"
  let ?e = "RetryError 255 (Exc ''APIConnectionError'' ''Connection error.'')"
  let ?w2 = "snd (transcribe_audio ''/tmp/tmpa.wav'' (staged ''/tmp/tmpa.wav'' [82, 73, 70, 70] ?w1))"
  have a: "map_of (files example_request) ''audio'' = Some [82, 73, 70, 70]"
    by (simp add: example_request_def)
  have t1: "NamedTemporaryFile ''.wav'' whisper_down = (Inr ''/tmp/tmpa.wav'', ?w1)"
    by (simp add: prod_eq_iff run_simps whisper_down_def example_world_def)
  have tr: "transcribe_audio ''/tmp/tmpa.wav'' (staged ''/tmp/tmpa.wav'' [82, 73, 70, 70] ?w1)
      = (Inl ?e, ?w2)"
    by (simp add: prod_eq_iff run_simps staged_def whisper_down_def example_world_def)
  have c0: "calls whisper_down = []" "calls_to Chat whisper_down = 0"
    by (simp_all add: whisper_down_def example_world_def calls_to_def)
  from transcription_failure_stops_pipeline
    [of example_request "[82, 73, 70, 70]" whisper_down "''/tmp/tmpa.wav''" ?w1 ?e ?w2]
    a t1 tr
  have v: "voice_agent example_request whisper_down = ((JObject [(''error'', JString (str ?e))], 500), ?w2)"
    "calls ?w2 = calls whisper_down @ replicate 6 (Transcriptions_create ''whisper-1'' [82, 73, 70, 70])"
    "calls_to Chat ?w2 = calls_to Chat whisper_down"
    by blast+
  have c1: "transcribe_audio ''/tmp/tmpa.wav'' (staged ''/tmp/tmpa.wav'' [82, 73, 70, 70] ?w1)
      = (Inl ?e, snd (voice_agent example_request whisper_down))"
    unfolding v(1) snd_conv by (rule tr)
  have c2: "snd (fst (voice_agent example_request whisper_down)) = 500"
    unfolding v(1) fst_conv snd_conv by (rule refl)
  have c3: "calls (snd (voice_agent example_request whisper_down))
       = replicate 6 (Transcriptions_create ''whisper-1'' [82, 73, 70, 70])"
    unfolding v(1) snd_conv v(2) c0 by simp
  have c4: "calls_to Chat (snd (voice_agent example_request whisper_down)) = 0"
    unfolding v(1) snd_conv v(3) c0 by (rule refl)
  from c1 c2 c3 c4 show ?thesis by (intro conjI)
qed

section \<open>The success payload\<close>

text \<open>
  C6, as stated: a successful run answers with the fields \<open>text_response\<close> and
  \<open>audio_base64\<close>, both non-empty. Nothing in the handler looks at what the services
  returned: when the completion service returns an empty reply and the synthesis service
  no bytes, the run succeeds with status 200 and both fields are empty strings.
\<close>

theorem nonempty_payload_counterexample:
  "fst (voice_agent example_request silent_world)
     = (JObject [(''text_response'', JString []), (''audio_base64'', JString [])], 200)"
  by (simp add: run_simps silent_world_def example_world_def example_request_def)

text \<open>
  C6, amended. A run answered with status 200 has a body of exactly the two fields
  \<open>text_response\<close> and \<open>audio_base64\<close>; the first is the content of the first choice the
  completion service returned, the second is the base64 text of the bytes the synthesis
  service returned for that reply, and decoding it gives back exactly those bytes. A
  field is empty exactly when the reply, or the synthesized audio, is empty.
\<close>

theorem success_payload_is_reply_and_base64_audio:
  assumes "snd (fst (voice_agent req w)) = 200"
  shows "\<exists>u t rest synth k2 k3. k2 < 6 \<and> k3 < 6
     \<and> chat w (calls_to Chat w + k2) ''gpt-3.5-turbo'' (chat_messages u) = Inr (t # rest)
     \<and> speech w (calls_to Speech w + k3) ''tts-1'' ''alloy'' t = Inr synth
     \<and> fst (voice_agent req w)
         = (JObject [(''text_response'', JString t),
                     (''audio_base64'', JString (b64encode synth))], 200)
     \<and> b64decode (b64encode synth) = Some synth
     \<and> (b64encode synth = [] \<longleftrightarrow> synth = [])"
proof -
  from voice_agent_runs [of req w] obtain k1 k2 k3 audio u t rest synth
    where s: "run_summary req w k1 k2 k3 audio u t rest synth" by blast
  from s assms have k3: "0 < k3" "k3 \<le> 6"
    and sp: "speech w (calls_to Speech w + k3 - 1) ''tts-1'' ''alloy'' t = Inr synth"
    and body: "fst (voice_agent req w)
         = (JObject [(''text_response'', JString t),
                     (''audio_base64'', JString (b64encode synth))], 200)"
    by (simp_all add: run_summary_def jsonify_def)
  from s k3 have k2: "0 < k2" "k2 \<le> 6"
    and ch: "chat w (calls_to Chat w + k2 - 1) ''gpt-3.5-turbo'' (chat_messages u) = Inr (t # rest)"
    by (auto simp: run_summary_def)
  from k2 obtain j2 where j2: "k2 = Suc j2" by (cases k2) auto
  from k3 obtain j3 where j3: "k3 = Suc j3" by (cases k3) auto
  have "j2 < 6" "j3 < 6" using k2 k3 j2 j3 by simp_all
  moreover have "chat w (calls_to Chat w + j2) ''gpt-3.5-turbo'' (chat_messages u) = Inr (t # rest)"
    using ch j2 by simp
  moreover have "speech w (calls_to Speech w + j3) ''tts-1'' ''alloy'' t = Inr synth"
    using sp j3 by simp
  moreover note body b64decode_b64encode [of synth] b64encode_empty_iff [of synth]
  ultimately show ?thesis by blast
qed

theorem success_payload_is_reply_and_base64_audio_witness:
  "snd (fst (voice_agent example_request example_world)) = 200
   \<and> (\<exists>u t rest synth k2 k3. k2 < 6 \<and> k3 < 6
     \<and> chat example_world (calls_to Chat example_world + k2) ''gpt-3.5-turbo'' (chat_messages u)
         = Inr (t # rest)
     \<and> speech example_world (calls_to Speech example_world + k3) ''tts-1'' ''alloy'' t = Inr synth
     \<and> fst (voice_agent example_request example_world)
         = (JObject [(''text_response'', JString t),
                     (''audio_base64'', JString (b64encode synth))], 200)
     \<and> b64decode (b64encode synth) = Some synth
     \<and> (b64encode synth = [] \<longleftrightarrow> synth = []))"
proof -
  have h: "snd (fst (voice_agent example_request example_world)) = 200"
    by (simp add: run_simps example_world_def example_request_def)
  from h success_payload_is_reply_and_base64_audio [OF h] show ?thesis by (rule conjI)
qed

section \<open>The completion stage\<close>

text \<open>
  C7. Whatever the transcript \<open>u\<close> and whatever calls were made before, every call of
  the completion stage sends the same two messages: the system instruction
  \<open>You are a helpful voice assistant.\<close> and then one user message holding \<open>u\<close>. In the
  handler the reply is the content of the first choice returned: it is the text the
  synthesis stage is called on, and the \<open>text_response\<close> of a successful answer.
\<close>

theorem completion_sends_two_messages_and_first_choice_is_reply:
  "(\<exists>k\<le>5. calls (snd (generate_chat_response u w)) =
       calls w @ replicate (Suc k)
         (Chat_completions_create ''gpt-3.5-turbo''
            [(''system'', ''You are a helpful voice assistant.''), (''user'', u)]))
   \<and> (map_of (files req) ''audio'' = Some audio \<longrightarrow>
      NamedTemporaryFile ''.wav'' w = (Inr p, w1) \<longrightarrow>
      transcribe_audio p (staged p audio w1) = (Inr u, w2) \<longrightarrow>
      generate_chat_response u w2 = (Inr (t # rest), w3) \<longrightarrow>
      NamedTemporaryFile ''.mp3'' w3 = (Inr q, w4) \<longrightarrow>
      generate_speech t w4 = (r5, w5) \<longrightarrow>
        (\<exists>k\<le>5. calls w5 = calls w4 @ replicate (Suc k) (Speech_create ''tts-1'' ''alloy'' t))
        \<and> fst (voice_agent req w) =
            (case r5 of
               Inl e \<Rightarrow> (JObject [(''error'', JString (str e))], 500)
             | Inr synth \<Rightarrow>
                 (JObject [(''text_response'', JString t),
                           (''audio_base64'', JString (b64encode synth))], 200)))"
proof (intro conjI impI)
  obtain r w' where run: "generate_chat_response u w = (r, w')"
    by (cases "generate_chat_response u w")
  from generate_chat_response_result [OF run] obtain k where "k \<le> 5"
    "w' = after_attempts w (Chat_completions_create ''gpt-3.5-turbo'' (chat_messages u)) 1 k"
    by blast
  with run show "\<exists>k\<le>5. calls (snd (generate_chat_response u w)) =
       calls w @ replicate (Suc k)
         (Chat_completions_create ''gpt-3.5-turbo''
            [(''system'', ''You are a helpful voice assistant.''), (''user'', u)])"
    by (auto simp: chat_messages_def system_instruction_def)
next
  assume sp: "generate_speech t w4 = (r5, w5)"
  from generate_speech_result [OF sp]
  show "\<exists>k\<le>5. calls w5 = calls w4 @ replicate (Suc k) (Speech_create ''tts-1'' ''alloy'' t)"
    by auto
next
  assume a: "map_of (files req) ''audio'' = Some audio"
    and t1: "NamedTemporaryFile ''.wav'' w = (Inr p, w1)"
    and tr: "transcribe_audio p (staged p audio w1) = (Inr u, w2)"
    and ch: "generate_chat_response u w2 = (Inr (t # rest), w3)"
    and t2: "NamedTemporaryFile ''.mp3'' w3 = (Inr q, w4)"
    and sp: "generate_speech t w4 = (r5, w5)"
  show "fst (voice_agent req w) =
            (case r5 of
               Inl e \<Rightarrow> (JObject [(''error'', JString (str e))], 500)
             | Inr synth \<Rightarrow>
                 (JObject [(''text_response'', JString t),
                           (''audio_base64'', JString (b64encode synth))], 200))"
  proof (cases r5)
    case (Inl e)
    with voice_agent_speech_fails [of req audio w p w1 u w2 t rest w3 q w4 e w5] a t1 tr ch t2 sp
    show ?thesis by (simp add: staged_def jsonify_def)
  next
    case (Inr synth)
    with voice_agent_success [of req audio w p w1 u w2 t rest w3 q w4 synth w5] a t1 tr ch t2 sp
    show ?thesis by (simp add: staged_def jsonify_def)
  qed
qed

theorem completion_sends_two_messages_and_first_choice_is_reply_witness:
  "generate_chat_response ''hello''
       (snd (transcribe_audio ''/tmp/tmpa.wav''
          (staged ''/tmp/tmpa.wav'' [82, 73, 70, 70] (snd (NamedTemporaryFile ''.wav'' flaky_world)))))
     = (Inr [''Hi'', ''Hello there''],
        snd (generate_chat_response ''hello''
          (snd (transcribe_audio ''/tmp/tmpa.wav''
            (staged ''/tmp/tmpa.wav'' [82, 73, 70, 70]
               (snd (NamedTemporaryFile ''.wav'' flaky_world)))))))
   \<and> fst (voice_agent example_request flaky_world)
     = (JObject [(''text_response'', JString ''Hi''), (''audio_base64'', JString (b64encode [1, 2, 3]))],
        200)"
proof -
  let ?s1 = "snd (NamedTemporaryFile ''.wav'' flaky_world)"
  let ?s2 = "snd (transcribe_audio ''/tmp/tmpa.wav'' (staged ''/tmp/tmpa.wav'' [82, 73, 70, 70] ?s1))"
  let ?s3 = "snd (generate_chat_response ''hello'' ?s2)"
  let ?s4 = "snd (NamedTemporaryFile ''.mp3'' ?s3)"
  let ?s5 = "snd (generate_speech ''Hi'' ?s4)"
  have a: "map_of (files example_request) ''audio'' = Some [82, 73, 70, 70]"
    by (simp add: example_request_def)
  have u1: "NamedTemporaryFile ''.wav'' flaky_world = (Inr ''/tmp/tmpa.wav'', ?s1)"
    by (simp add: prod_eq_iff run_simps flaky_world_def example_world_def)
  have ur: "transcribe_audio ''/tmp/tmpa.wav'' (staged ''/tmp/tmpa.wav'' [82, 73, 70, 70] ?s1)
      = (Inr ''hello'', ?s2)"
    by (simp add: prod_eq_iff run_simps staged_def flaky_world_def example_world_def)
  have uc: "generate_chat_response ''hello'' ?s2 = (Inr (''Hi'' # [''Hello there'']), ?s3)"
    by (simp add: prod_eq_iff run_simps staged_def flaky_world_def example_world_def)
  have u2: "NamedTemporaryFile ''.mp3'' ?s3 = (Inr ''/tmp/tmpaa.mp3'', ?s4)"
    by (simp add: prod_eq_iff run_simps staged_def flaky_world_def example_world_def)
  have us: "generate_speech ''Hi'' ?s4 = (Inr [1, 2, 3], ?s5)"
    by (simp add: prod_eq_iff run_simps staged_def flaky_world_def example_world_def)
  from completion_sends_two_messages_and_first_choice_is_reply
    [of "''hello''" flaky_world example_request "[82, 73, 70, 70]" "''/tmp/tmpa.wav''" ?s1 ?s2
        "''Hi''" "[''Hello there'']" ?s3 "''/tmp/tmpaa.mp3''" ?s4 "Inr [1, 2, 3]" ?s5]
    a u1 ur uc u2 us
  have "fst (voice_agent example_request flaky_world) =
      (case (Inr [1, 2, 3] :: exn + byte list) of
         Inl e \<Rightarrow> (JObject [(''error'', JString (str e))], 500)
       | Inr synth \<Rightarrow>
           (JObject [(''text_response'', JString ''Hi''),
                     (''audio_base64'', JString (b64encode synth))], 200))"
    by blast
  then have c2: "fst (voice_agent example_request flaky_world)
     = (JObject [(''text_response'', JString ''Hi''), (''audio_base64'', JString (b64encode [1, 2, 3]))],
        200)"
    by (simp only: sum.case)
  from uc c2 show ?thesis by (intro conjI)
qed

section \<open>All or nothing\<close>

text \<open>
  C8. Whichever stage raises once its retries are used up, the transcription, the
  completion, or the synthesis after a reply \<open>t\<close> was already produced, the handler
  answers status 500 with a body that has the one field \<open>error\<close>, holding the text of what
  was raised; the reply is not in it. And whatever happens, a response is either such an
  error response or the whole payload with both \<open>text_response\<close> and \<open>audio_base64\<close>.
\<close>

theorem stage_failure_gives_error_only:
  "(map_of (files req) ''audio'' = Some audio \<longrightarrow>
    NamedTemporaryFile ''.wav'' w = (Inr p, w1) \<longrightarrow>
      (transcribe_audio p (staged p audio w1) = (Inl e, w2) \<longrightarrow>
         voice_agent req w = ((JObject [(''error'', JString (str e))], 500), w2))
    \<and> (transcribe_audio p (staged p audio w1) = (Inr u, w2) \<longrightarrow>
       generate_chat_response u w2 = (Inl e, w3) \<longrightarrow>
         voice_agent req w = ((JObject [(''error'', JString (str e))], 500), w3))
    \<and> (transcribe_audio p (staged p audio w1) = (Inr u, w2) \<longrightarrow>
       generate_chat_response u w2 = (Inr (t # rest), w3) \<longrightarrow>
       NamedTemporaryFile ''.mp3'' w3 = (Inr q, w4) \<longrightarrow>
       generate_speech t w4 = (Inl e, w5) \<longrightarrow>
         voice_agent req w = ((JObject [(''error'', JString (str e))], 500), w5)))
   \<and> (is_error_response (fst (voice_agent req w))
      \<or> (\<exists>t b. fst (voice_agent req w)
            = (JObject [(''text_response'', JString t), (''audio_base64'', JString b)], 200)))"
proof (intro conjI impI)
  assume "map_of (files req) ''audio'' = Some audio"
    "NamedTemporaryFile ''.wav'' w = (Inr p, w1)"
    "transcribe_audio p (staged p audio w1) = (Inl e, w2)"
  then show "voice_agent req w = ((JObject [(''error'', JString (str e))], 500), w2)"
    using voice_agent_transcription_fails [of req audio w p w1 e w2]
    by (simp add: staged_def jsonify_def)
next
  assume "map_of (files req) ''audio'' = Some audio"
    "NamedTemporaryFile ''.wav'' w = (Inr p, w1)"
    "transcribe_audio p (staged p audio w1) = (Inr u, w2)"
    "generate_chat_response u w2 = (Inl e, w3)"
  then show "voice_agent req w = ((JObject [(''error'', JString (str e))], 500), w3)"
    using voice_agent_chat_fails [of req audio w p w1 u w2 e w3]
    by (simp add: staged_def jsonify_def)
next
  assume "map_of (files req) ''audio'' = Some audio"
    "NamedTemporaryFile ''.wav'' w = (Inr p, w1)"
    "transcribe_audio p (staged p audio w1) = (Inr u, w2)"
    "generate_chat_response u w2 = (Inr (t # rest), w3)"
    "NamedTemporaryFile ''.mp3'' w3 = (Inr q, w4)"
    "generate_speech t w4 = (Inl e, w5)"
  then show "voice_agent req w = ((JObject [(''error'', JString (str e))], 500), w5)"
    using voice_agent_speech_fails [of req audio w p w1 u w2 t rest w3 q w4 e w5]
    by (simp add: staged_def jsonify_def)
next
  from voice_agent_runs [of req w] obtain k1 k2 k3 audio u t rest synth
    where "run_summary req w k1 k2 k3 audio u t rest synth" by blast
  then show "is_error_response (fst (voice_agent req w))
      \<or> (\<exists>t b. fst (voice_agent req w)
            = (JObject [(''text_response'', JString t), (''audio_base64'', JString b)], 200))"
    by (cases "snd (fst (voice_agent req w)) = 200") (simp_all add: run_summary_def jsonify_def)
qed

theorem stage_failure_gives_error_only_witness:
  "transcribe_audio ''/tmp/tmpa.wav''
       (staged ''/tmp/tmpa.wav'' [82, 73, 70, 70] (snd (NamedTemporaryFile ''.wav'' whisper_down)))
     = (Inl (RetryError 255 (Exc ''APIConnectionError'' ''Connection error.'')),
        snd (voice_agent example_request whisper_down))
   \<and> fst (voice_agent example_request whisper_down)
     = (JObject [(''error'',
          JString (str (RetryError 255 (Exc ''APIConnectionError'' ''Connection error.''))))], 500)
   \<and> fst (generate_chat_response ''hello''
         (snd (transcribe_audio ''/tmp/tmpa.wav''
           (staged ''/tmp/tmpa.wav'' [82, 73, 70, 70] (snd (NamedTemporaryFile ''.wav'' speech_down))))))
     = Inr [''Hi'']
   \<and> fst (voice_agent example_request speech_down)
     = (JObject [(''error'',
          JString (str (RetryError 255 (Exc ''APITimeoutError'' ''Request timed out.''))))], 500)"
proof -
  let ?e = "RetryError 255 (Exc ''APIConnectionError'' ''Connection error.'')"
  let ?w1 = "snd (NamedTemporaryFile ''.wav'' whisper_down)"
  let ?w2 = "snd (transcribe_audio ''/tmp/tmpa.wav'' (staged ''/tmp/tmpa.wav'' [82, 73, 70, 70] ?w1))"
  have a: "map_of (files example_request) ''audio'' = Some [82, 73, 70, 70]"
    by (simp add: example_request_def)
  have t1: "NamedTemporaryFile ''.wav'' whisper_down = (Inr ''/tmp/tmpa.wav'', ?w1)"
    by (simp add: prod_eq_iff run_simps whisper_down_def example_world_def)
  have tr: "transcribe_audio ''/tmp/tmpa.wav'' (staged ''/tmp/tmpa.wav'' [82, 73, 70, 70] ?w1)
      = (Inl ?e, ?w2)"
    by (simp add: prod_eq_iff run_simps staged_def whisper_down_def example_world_def)
  from stage_failure_gives_error_only
    [of example_request "[82, 73, 70, 70]" whisper_down "''/tmp/tmpa.wav''" ?w1 ?e ?w2]
    a t1 tr
  have v: "voice_agent example_request whisper_down = ((JObject [(''error'', JString (str ?e))], 500), ?w2)"
    by blast
  let ?f = "RetryError 255 (Exc ''APITimeoutError'' ''Request timed out.'')"
  let ?s1 = "snd (NamedTemporaryFile ''.wav'' speech_down)"
  let ?s2 = "snd (transcribe_audio ''/tmp/tmpa.wav'' (staged ''/tmp/tmpa.wav'' [82, 73, 70, 70] ?s1))"
  let ?s3 = "snd (generate_chat_response ''hello'' ?s2)"
  let ?s4 = "snd (NamedTemporaryFile ''.mp3'' ?s3)"
  let ?s5 = "snd (generate_speech ''Hi'' ?s4)"
  have u1: "NamedTemporaryFile ''.wav'' speech_down = (Inr ''/tmp/tmpa.wav'', ?s1)"
    by (simp add: prod_eq_iff run_simps speech_down_def example_world_def)
  have ur: "transcribe_audio ''/tmp/tmpa.wav'' (staged ''/tmp/tmpa.wav'' [82, 73, 70, 70] ?s1)
      = (Inr ''hello'', ?s2)"
    by (simp add: prod_eq_iff run_simps staged_def speech_down_def example_world_def)
  have uc: "generate_chat_response ''hello'' ?s2 = (Inr (''Hi'' # []), ?s3)"
    by (simp add: prod_eq_iff run_simps staged_def speech_down_def example_world_def)
  have u2: "NamedTemporaryFile ''.mp3'' ?s3 = (Inr ''/tmp/tmpaa.mp3'', ?s4)"
    by (simp add: prod_eq_iff run_simps staged_def speech_down_def example_world_def)
  have us: "generate_speech ''Hi'' ?s4 = (Inl ?f, ?s5)"
    by (simp add: prod_eq_iff run_simps staged_def speech_down_def example_world_def)
  from stage_failure_gives_error_only
    [of example_request "[82, 73, 70, 70]" speech_down "''/tmp/tmpa.wav''" ?s1 ?f ?s2
        "''hello''" ?s3 "''Hi''" "[]" "''/tmp/tmpaa.mp3''" ?s4 ?s5]
    a u1 ur uc u2 us
  have v': "voice_agent example_request speech_down = ((JObject [(''error'', JString (str ?f))], 500), ?s5)"
    by blast
  have c1: "transcribe_audio ''/tmp/tmpa.wav'' (staged ''/tmp/tmpa.wav'' [82, 73, 70, 70] ?w1)
      = (Inl ?e, snd (voice_agent example_request whisper_down))"
    unfolding v snd_conv by (rule tr)
  have c2: "fst (voice_agent example_request whisper_down)
      = (JObject [(''error'', JString (str ?e))], 500)"
    unfolding v fst_conv by (rule refl)
  have c3: "fst (generate_chat_response ''hello'' ?s2) = Inr [''Hi'']"
    using arg_cong [OF uc, of fst] unfolding fst_conv .
  have c4: "fst (voice_agent example_request speech_down)
      = (JObject [(''error'', JString (str ?f))], 500)"
    unfolding v' fst_conv by (rule refl)
  from c1 c2 c3 c4 show ?thesis by (intro conjI)
qed

section \<open>An upload of zero bytes\<close>

text \<open>
  C9. The precondition looks only at the presence of a file part named \<open>audio\<close>. When
  that part is there with zero bytes and the temporary file can be created, the answer
  is not the 400 of the missing upload, and the first call the request makes is the
  transcription of the staged file, which holds those zero bytes.
\<close>

theorem empty_audio_is_transcribed:
  assumes "map_of (files req) ''audio'' = Some []"
    and "NamedTemporaryFile ''.wav'' w = (Inr p, w1)"
  shows "snd (fst (voice_agent req w)) \<noteq> 400
     \<and> take (Suc (length (calls w))) (calls (snd (voice_agent req w)))
         = calls w @ [Transcriptions_create ''whisper-1'' []]"
proof -
  from voice_agent_runs [of req w] obtain k1 k2 k3 audio u t rest synth
    where s: "run_summary req w k1 k2 k3 audio u t rest synth" by blast
  from s assms have k1: "0 < k1" by (simp add: run_summary_def)
  with s assms have a: "audio = []" by (simp add: run_summary_def)
  from s assms have st: "snd (fst (voice_agent req w)) \<noteq> 400" by (simp add: run_summary_def)
  from k1 obtain j where j: "k1 = Suc j" by (cases k1) auto
  from s have "calls (snd (voice_agent req w)) =
         calls w @ replicate k1 (Transcriptions_create ''whisper-1'' audio)
           @ replicate k2 (Chat_completions_create ''gpt-3.5-turbo'' (chat_messages u))
           @ replicate k3 (Speech_create ''tts-1'' ''alloy'' t)"
    by (simp add: run_summary_def)
  then have "take (Suc (length (calls w))) (calls (snd (voice_agent req w)))
         = calls w @ [Transcriptions_create ''whisper-1'' []]"
    by (simp add: j a)
  with st show ?thesis by blast
qed

theorem empty_audio_is_transcribed_witness:
  "map_of (files \<lparr>form = [], files = [(''audio'', [])]\<rparr>) ''audio'' = Some []
   \<and> NamedTemporaryFile ''.wav'' example_world
       = (Inr ''/tmp/tmpa.wav'', snd (NamedTemporaryFile ''.wav'' example_world))
   \<and> snd (fst (voice_agent \<lparr>form = [], files = [(''audio'', [])]\<rparr> example_world)) \<noteq> 400
   \<and> take (Suc (length (calls example_world)))
         (calls (snd (voice_agent \<lparr>form = [], files = [(''audio'', [])]\<rparr> example_world)))
       = calls example_world @ [Transcriptions_create ''whisper-1'' []]"
proof -
  have h1: "map_of (files \<lparr>form = [], files = [(''audio'', [])]\<rparr>) ''audio'' = Some []"
    by simp
  have h2: "NamedTemporaryFile ''.wav'' example_world
       = (Inr ''/tmp/tmpa.wav'', snd (NamedTemporaryFile ''.wav'' example_world))"
    by (simp add: prod_eq_iff run_simps example_world_def)
  from empty_audio_is_transcribed [OF h1 h2] h1 h2 show ?thesis by blast
qed

end
